theory Spec2Isabelle
  imports Complex_Main "HOL-Library.Multiset" "HOL-Library.Sublist"
begin

section \<open>The student job assigner (src/src/App.js)\<close>

text \<open>
  The assignment logic of \<^verbatim>\<open>App.js\<close> lives in callbacks of a React component. Each
  callback reads the component state \<^verbatim>\<open>appState\<close>, reports to the user through
  \<^verbatim>\<open>setMessage\<close> and replaces the state through \<^verbatim>\<open>saveState\<close>. The model below passes
  the state explicitly, takes the random source and the clock as parameters, and returns
  what the callback shows and what it saves.
\<close>

subsection \<open>The random source\<close>

text \<open>
  \<^verbatim>\<open>Math.random()\<close> returns a number \<open>r\<close> with \<open>0 \<le> r < 1\<close>. The type \<open>rand01\<close> holds
  exactly these numbers; a random source is the sequence of the draws still to come.
  The product \<^verbatim>\<open>Math.random() * currentIndex\<close> is taken over the reals: for an index that an
  array can have, the rounded product of the source stays below \<^verbatim>\<open>currentIndex\<close> as well, so
  the index drawn lies inside the array either way.
\<close>

typedef rand01 = "{r :: real. 0 \<le> r \<and> r < 1}"
  by (rule exI [of _ 0]) simp

setup_lifting type_definition_rand01

lift_definition draw_zero :: rand01 is "0 :: real"
  by simp

lift_definition draw_half :: rand01 is "1 / 2 :: real"
  by simp

type_synonym rng = "nat \<Rightarrow> rand01"

subsection \<open>shuffleArray (lines 38-50)\<close>

text \<open>
  The destructuring assignment
  \<^verbatim>\<open>[array[currentIndex], array[randomIndex]] = [array[randomIndex], array[currentIndex]]\<close>
  reads both cells, then writes \<^verbatim>\<open>array[currentIndex]\<close>, then \<^verbatim>\<open>array[randomIndex]\<close>.
\<close>

definition swapCells :: "'a list \<Rightarrow> nat \<Rightarrow> nat \<Rightarrow> 'a list" where
  "swapCells array currentIndex randomIndex =
     (array[currentIndex := array ! randomIndex])[randomIndex := array ! currentIndex]"

text \<open>
  The \<^verbatim>\<open>while (currentIndex !== 0)\<close> loop, by recursion on \<^verbatim>\<open>currentIndex\<close>. One pass
  draws \<^verbatim>\<open>Math.floor(Math.random() * currentIndex)\<close>, decrements \<^verbatim>\<open>currentIndex\<close> and
  swaps. The loop returns the array and the draws it has not used.
\<close>

fun shuffleLoop :: "rng \<Rightarrow> nat \<Rightarrow> 'a list \<Rightarrow> 'a list \<times> rng" where
  "shuffleLoop rnd 0 array = (array, rnd)"
| "shuffleLoop rnd (Suc n) array =
     (let randomIndex = nat \<lfloor>Rep_rand01 (rnd 0) * real (Suc n)\<rfloor>;
          currentIndex = n
      in shuffleLoop (\<lambda>i. rnd (Suc i)) currentIndex (swapCells array currentIndex randomIndex))"

definition shuffleArray :: "rng \<Rightarrow> 'a list \<Rightarrow> 'a list \<times> rng" where
  "shuffleArray rnd array = shuffleLoop rnd (length array) array"

subsection \<open>The application state (lines 58-67)\<close>

text \<open>
  Students are numbers, job titles are strings. \<^verbatim>\<open>currentAssignments\<close> and
  \<^verbatim>\<open>studentJobHistory\<close> are objects keyed by student number: maps, in which a key
  that the object lacks is \<open>None\<close>.
\<close>

record AppState =
  students :: "int list"
  jobTitles :: "string list"
  currentAssignments :: "int \<rightharpoonup> string"
  remainingStudentsInCycle :: "int list"
  studentJobHistory :: "int \<rightharpoonup> string list"
  lastAssignmentDate :: "string option"
  userDefaultStudents :: "int list"
  userDefaultJobTitles :: "string list"

text \<open>
  The texts passed to \<^verbatim>\<open>setMessage\<close>, one constructor for each:
  \<^item> \<open>EmptyRoster\<close>: "Please add students and job titles before assigning jobs."
  \<^item> \<open>MoreJobsThanStudents\<close>: "Warning: More job titles than students. Some jobs may not be assigned."
  \<^item> \<open>NewCycle\<close>: "Starting a new cycle: All students are now available for assignment."
  \<^item> \<open>JobsSkipped\<close>: "Not enough unique students to assign all jobs this week. Some jobs were skipped."
  \<^item> \<open>RecentHistoryWarning s job\<close>: "Warning: Student s was assigned job "job" even though it's in
    their recent history, as no better option was available."
  \<^item> \<open>HadBeforeWarning s job\<close>: "Warning: Student s was assigned job "job" even though they've had
    it before, as all eligible students have had this job."
  \<^item> \<open>CycleComplete\<close>: "All students have received a job in this cycle. Next assignment will start
    a new cycle."
  \<^item> \<open>HistoryReset\<close>: "Student assignment history has been reset."

  The message shown is a list of these texts, joined by single spaces:
  \<^verbatim>\<open>setMessage(text)\<close> replaces the list by \<open>[text]\<close>, \<^verbatim>\<open>setMessage('')\<close> by \<open>[]\<close>, and
  \<^verbatim>\<open>setMessage(prev => prev + (prev ? " " : "") + text)\<close> appends \<open>text\<close>.
\<close>

datatype notice =
    EmptyRoster
  | MoreJobsThanStudents
  | NewCycle
  | JobsSkipped
  | RecentHistoryWarning int string
  | HadBeforeWarning int string
  | CycleComplete
  | HistoryReset

text \<open>
  What one call of a callback leaves behind: the message as the callback sets it, and the
  state handed to \<^verbatim>\<open>saveState\<close> (\<open>None\<close> when the callback returns without calling it).
  \<^verbatim>\<open>saveState\<close> reports on the write in the same message field once the write is over;
  that report is not part of the model.
\<close>

record outcome =
  shown :: "notice list"
  saved :: "AppState option"

text \<open>
  \<^verbatim>\<open>saveState\<close> (lines 226-241) writes the document and, when the write succeeds, calls
  \<^verbatim>\<open>setAppState(newState)\<close>; a callback that does not reach it leaves \<^verbatim>\<open>appState\<close> as it
  was. \<open>stateAfter\<close> is the application state after a call whose write succeeds.
\<close>

definition stateAfter :: "AppState \<Rightarrow> outcome \<Rightarrow> AppState" where
  "stateAfter appState out = (case saved out of None \<Rightarrow> appState | Some newState \<Rightarrow> newState)"

subsection \<open>generateWeeklyAssignments (lines 274-384)\<close>

text \<open>The variables the \<^verbatim>\<open>forEach\<close> callback updates.\<close>

record week =
  newCurrentAssignments :: "int \<rightharpoonup> string"
  newStudentJobHistory :: "int \<rightharpoonup> string list"
  newRemainingStudentsInCycle :: "int list"
  studentsAssignedThisWeek :: "int set"
  message :: "notice list"

text \<open>\<^verbatim>\<open>newStudentJobHistory[studentNum] || []\<close>\<close>

definition historyOf :: "(int \<rightharpoonup> string list) \<Rightarrow> int \<Rightarrow> string list" where
  "historyOf h studentNum = (case h studentNum of None \<Rightarrow> [] | Some jobs \<Rightarrow> jobs)"

text \<open>\<^verbatim>\<open>history.slice(-2)\<close>: the last two entries, all of them when there are fewer.\<close>

definition recentHistoryJobs :: "string list \<Rightarrow> string list" where
  "recentHistoryJobs history = drop (length history - 2) history"

text \<open>The first \<^verbatim>\<open>for\<close> loop (lines 321-330): the first student without the job in the last two entries.\<close>

fun findNotRecent :: "(int \<rightharpoonup> string list) \<Rightarrow> string \<Rightarrow> int list \<Rightarrow> int option" where
  "findNotRecent h job [] = None"
| "findNotRecent h job (studentNum # rest) =
     (if job \<notin> set (recentHistoryJobs (historyOf h studentNum)) then Some studentNum
      else findNotRecent h job rest)"

text \<open>The second \<^verbatim>\<open>for\<close> loop (lines 334-342): the first student who never had the job.\<close>

fun findNeverHad :: "(int \<rightharpoonup> string list) \<Rightarrow> string \<Rightarrow> int list \<Rightarrow> int option" where
  "findNeverHad h job [] = None"
| "findNeverHad h job (studentNum # rest) =
     (if job \<notin> set (historyOf h studentNum) then Some studentNum
      else findNeverHad h job rest)"

text \<open>
  Lines 320-352: the three attempts in order. The result is \<^verbatim>\<open>assignedStudent\<close>
  (\<open>None\<close> for \<^verbatim>\<open>null\<close>) and the warning appended on the way.
\<close>

definition pickStudent :: "(int \<rightharpoonup> string list) \<Rightarrow> string \<Rightarrow> int list \<Rightarrow> int option \<times> notice list" where
  "pickStudent h job eligibleStudentsForJob =
     (case findNotRecent h job eligibleStudentsForJob of
        Some studentNum \<Rightarrow> (Some studentNum, [])
      | None \<Rightarrow>
         (case findNeverHad h job eligibleStudentsForJob of
            Some studentNum \<Rightarrow> (Some studentNum, [RecentHistoryWarning studentNum job])
          | None \<Rightarrow>
             if length eligibleStudentsForJob > 0
             then (Some (eligibleStudentsForJob ! 0),
                   [HadBeforeWarning (eligibleStudentsForJob ! 0) job])
             else (None, [])))"

text \<open>\<^verbatim>\<open>indexOf\<close>: the index of the first occurrence, \<open>-1\<close> when there is none.\<close>

fun indexOf :: "'a list \<Rightarrow> 'a \<Rightarrow> int" where
  "indexOf [] x = - 1"
| "indexOf (y # ys) x =
     (if y = x then 0 else (let i = indexOf ys x in if i < 0 then - 1 else i + 1))"

text \<open>\<^verbatim>\<open>splice(index, 1)\<close> for an index inside the array.\<close>

definition spliceOne :: "'a list \<Rightarrow> nat \<Rightarrow> 'a list" where
  "spliceOne xs i = take i xs @ drop (Suc i) xs"

text \<open>Lines 363-366.\<close>

definition removeFromCycle :: "int list \<Rightarrow> int \<Rightarrow> int list" where
  "removeFromCycle cycle assignedStudent =
     (let indexInCycle = indexOf cycle assignedStudent
      in if indexInCycle > - 1 then spliceOne cycle (nat indexInCycle) else cycle)"

text \<open>Lines 311-313: the students of the weekly pool not yet assigned this week, in pool order.\<close>

definition eligibleStudents :: "int list \<Rightarrow> week \<Rightarrow> int list" where
  "eligibleStudents availableStudentsForThisWeek w =
     filter (\<lambda>studentNum. studentNum \<notin> studentsAssignedThisWeek w) availableStudentsForThisWeek"

text \<open>
  Lines 355-367: what a successful pick writes. \<^verbatim>\<open>bestStudentCandidateHistory\<close> is the
  student's history as the loops above read it, \<^verbatim>\<open>newStudentJobHistory[student] || []\<close>.
\<close>

definition recordAssignment :: "week \<Rightarrow> int \<Rightarrow> string \<Rightarrow> week" where
  "recordAssignment w assignedStudent job =
     w\<lparr>newCurrentAssignments := (newCurrentAssignments w)(assignedStudent \<mapsto> job),
       studentsAssignedThisWeek := insert assignedStudent (studentsAssignedThisWeek w),
       newStudentJobHistory := (newStudentJobHistory w)
         (assignedStudent \<mapsto> historyOf (newStudentJobHistory w) assignedStudent @ [job]),
       newRemainingStudentsInCycle :=
         removeFromCycle (newRemainingStudentsInCycle w) assignedStudent\<rparr>"

text \<open>The body of \<^verbatim>\<open>shuffledJobTitles.forEach\<close> (lines 305-368) for one job.\<close>

definition assignJob :: "int list \<Rightarrow> week \<Rightarrow> string \<Rightarrow> week" where
  "assignJob availableStudentsForThisWeek w job =
     (let eligibleStudentsForJob = eligibleStudents availableStudentsForThisWeek w
      in if length eligibleStudentsForJob = 0
         then w\<lparr>message := message w @ [JobsSkipped]\<rparr>
         else
           (case pickStudent (newStudentJobHistory w) job eligibleStudentsForJob of
              (None, warning) \<Rightarrow> w\<lparr>message := message w @ warning\<rparr>
            | (Some assignedStudent, warning) \<Rightarrow>
                recordAssignment (w\<lparr>message := message w @ warning\<rparr>) assignedStudent job))"

text \<open>
  Lines 291-297: the cycle the run starts from, the draws left and the message so far.
  A refill replaces the message, so it drops an earlier warning about the job count.
\<close>

definition startCycle :: "rng \<Rightarrow> AppState \<Rightarrow> notice list \<Rightarrow> int list \<times> rng \<times> notice list" where
  "startCycle rnd appState msg =
     (if length (remainingStudentsInCycle appState) = 0
      then (case shuffleArray rnd (students appState) of
              (cycle, rnd') \<Rightarrow> (cycle, rnd', [NewCycle]))
      else (remainingStudentsInCycle appState, rnd, msg))"

text \<open>
  The whole callback. \<open>now\<close> stands for \<^verbatim>\<open>new Date().toISOString()\<close>.
\<close>

definition generateWeeklyAssignments :: "rng \<Rightarrow> string \<Rightarrow> AppState \<Rightarrow> outcome" where
  "generateWeeklyAssignments rnd now appState =
     (if length (students appState) = 0 \<or> length (jobTitles appState) = 0
      then \<lparr>shown = [EmptyRoster], saved = None\<rparr>
      else
        (let msg0 = (if length (students appState) < length (jobTitles appState)
                     then [MoreJobsThanStudents] else []);
             (cycle, rnd1, msg1) = startCycle rnd appState msg0;
             (availableStudentsForThisWeek, rnd2) = shuffleArray rnd1 (students appState);
             (shuffledJobTitles, rnd3) = shuffleArray rnd2 (jobTitles appState);
             w = foldl (assignJob availableStudentsForThisWeek)
                   \<lparr>newCurrentAssignments = Map.empty,
                    newStudentJobHistory = studentJobHistory appState,
                    newRemainingStudentsInCycle = cycle,
                    studentsAssignedThisWeek = {},
                    message = msg1\<rparr>
                   shuffledJobTitles;
             msg2 = (if length (newRemainingStudentsInCycle w) = 0 \<and> length (students appState) > 0
                     then message w @ [CycleComplete] else message w)
         in \<lparr>shown = msg2,
             saved = Some (appState\<lparr>currentAssignments := newCurrentAssignments w,
                                    remainingStudentsInCycle := newRemainingStudentsInCycle w,
                                    studentJobHistory := newStudentJobHistory w,
                                    lastAssignmentDate := Some now\<rparr>)\<rparr>))"

subsection \<open>resetAssignmentHistory (lines 387-399)\<close>

definition resetAssignmentHistory :: "rng \<Rightarrow> AppState \<Rightarrow> outcome" where
  "resetAssignmentHistory rnd appState =
     \<lparr>shown = [HistoryReset],
      saved = Some (appState\<lparr>currentAssignments := Map.empty,
                             remainingStudentsInCycle := fst (shuffleArray rnd (students appState)),
                             studentJobHistory := Map.empty,
                             lastAssignmentDate := None\<rparr>)\<rparr>"

subsection \<open>The state loader (lines 155-167)\<close>

text \<open>The hardcoded defaults (lines 29-36).\<close>

definition DEFAULT_STUDENTS :: "int list" where
  "DEFAULT_STUDENTS = map (\<lambda>i. int i + 1) [0..<23]"

definition DEFAULT_JOB_TITLES :: "string list" where
  "DEFAULT_JOB_TITLES =
     [''Line Leader'', ''Door Holder'', ''Caboose'', ''Calendar Helper'', ''Weather Reporter'',
      ''Pencil Monitor'', ''Snack Helper'', ''Table Washer'', ''Librarian'', ''Supply Manager'',
      ''Chair Stacker'', ''Plant Waterer'', ''Pet Helper'', ''Board Eraser'', ''Technology Helper'',
      ''Recycling Monitor'', ''Paper Passer'', ''Greeter'', ''Messenger'', ''Quiet Captain'',
      ''Time Keeper'', ''Flag Holder'', ''Classroom Helper'']"

text \<open>
  The stored document, \<^verbatim>\<open>docSnap.data()\<close>. A field is \<open>None\<close> when the document does not
  carry it (or carries \<^verbatim>\<open>null\<close>, for the five fields read with \<^verbatim>\<open>||\<close>). The date is
  stored as a string or as \<^verbatim>\<open>null\<close>.
\<close>

record document =
  doc_students :: "int list option"
  doc_jobTitles :: "string list option"
  doc_currentAssignments :: "(int \<rightharpoonup> string) option"
  doc_remainingStudentsInCycle :: "int list option"
  doc_studentJobHistory :: "(int \<rightharpoonup> string list) option"
  doc_lastAssignmentDate :: "string option option"
  doc_userDefaultStudents :: "int list option"
  doc_userDefaultJobTitles :: "string list option"

text \<open>
  The update passed to \<^verbatim>\<open>setAppState\<close> when the document exists:
  \<^verbatim>\<open>{...prevState, ...data, students: data.students || DEFAULT_STUDENTS, ...}\<close>.
  An empty array is truthy, so it is kept.
\<close>

definition loadState :: "AppState \<Rightarrow> document \<Rightarrow> AppState" where
  "loadState prevState data =
     \<lparr>students = (case doc_students data of Some v \<Rightarrow> v | None \<Rightarrow> DEFAULT_STUDENTS),
      jobTitles = (case doc_jobTitles data of Some v \<Rightarrow> v | None \<Rightarrow> DEFAULT_JOB_TITLES),
      currentAssignments =
        (case doc_currentAssignments data of Some v \<Rightarrow> v | None \<Rightarrow> Map.empty),
      remainingStudentsInCycle =
        (case doc_remainingStudentsInCycle data of Some v \<Rightarrow> v | None \<Rightarrow> []),
      studentJobHistory =
        (case doc_studentJobHistory data of Some v \<Rightarrow> v | None \<Rightarrow> Map.empty),
      lastAssignmentDate =
        (case doc_lastAssignmentDate data of Some v \<Rightarrow> v
         | None \<Rightarrow> lastAssignmentDate prevState),
      userDefaultStudents =
        (case doc_userDefaultStudents data of Some v \<Rightarrow> v
         | None \<Rightarrow> userDefaultStudents prevState),
      userDefaultJobTitles =
        (case doc_userDefaultJobTitles data of Some v \<Rightarrow> v
         | None \<Rightarrow> userDefaultJobTitles prevState)\<rparr>"

subsection \<open>Example states\<close>

text \<open>
  \<open>exampleState\<close>: three students and two jobs, a full cycle queue, no history.
  \<open>noStudentsState\<close>: one job and no student. \<open>cycleOverState\<close>: two students and one
  job, with the cycle queue used up.
\<close>

definition exampleState :: AppState where
  "exampleState =
     \<lparr>students = [1, 2, 3], jobTitles = [''A'', ''B''], currentAssignments = Map.empty,
      remainingStudentsInCycle = [1, 2, 3], studentJobHistory = Map.empty,
      lastAssignmentDate = None, userDefaultStudents = [], userDefaultJobTitles = []\<rparr>"

definition noStudentsState :: AppState where
  "noStudentsState = exampleState\<lparr>students := [], jobTitles := [''A''], remainingStudentsInCycle := []\<rparr>"

definition cycleOverState :: AppState where
  "cycleOverState = exampleState\<lparr>students := [1, 2], jobTitles := [''A''], remainingStudentsInCycle := []\<rparr>"

text \<open>A random source whose every draw is 0.\<close>

definition zeroDraws :: rng where
  "zeroDraws = (\<lambda>_. draw_zero)"

text \<open>A random source whose every draw is one half.\<close>

definition halfDraws :: rng where
  "halfDraws = (\<lambda>_. draw_half)"

text \<open>A stored document that carries no field.\<close>

definition blankDocument :: document where
  "blankDocument =
     \<lparr>doc_students = None, doc_jobTitles = None, doc_currentAssignments = None,
      doc_remainingStudentsInCycle = None, doc_studentJobHistory = None,
      doc_lastAssignmentDate = None, doc_userDefaultStudents = None,
      doc_userDefaultJobTitles = None\<rparr>"

text \<open>
  \<open>windowState\<close>: one job B and three students in the queue; student 2 held B last, student
  3 held B three assignments ago, student 1 has no history. \<open>repeatState\<close>: one student
  with history A, B, A and the one job A. \<open>shortState\<close>: one student and two jobs.
\<close>

definition windowState :: AppState where
  "windowState =
     exampleState\<lparr>jobTitles := [''B''],
       studentJobHistory := [2 \<mapsto> [''C'', ''A'', ''B''], 3 \<mapsto> [''B'', ''A'', ''C'']]\<rparr>"

definition repeatState :: AppState where
  "repeatState =
     exampleState\<lparr>students := [1], jobTitles := [''A''], remainingStudentsInCycle := [1],
       studentJobHistory := [1 \<mapsto> [''A'', ''B'', ''A'']]\<rparr>"

definition shortState :: AppState where
  "shortState = exampleState\<lparr>students := [1], remainingStudentsInCycle := [1]\<rparr>"

text \<open>
  A stored document with a student listed twice, and with a queue entry and an assignment
  for student 99, who is not on the roster.
\<close>

definition staleDocument :: document where
  "staleDocument =
     \<lparr>doc_students = Some [1, 1], doc_jobTitles = Some [''A''],
      doc_currentAssignments = Some [99 \<mapsto> ''A''],
      doc_remainingStudentsInCycle = Some [99], doc_studentJobHistory = None,
      doc_lastAssignmentDate = None, doc_userDefaultStudents = None,
      doc_userDefaultJobTitles = None\<rparr>"

subsection \<open>Notions used in the statements\<close>

text \<open>No job is the value of two students.\<close>

definition oneStudentPerJob :: "(int \<rightharpoonup> string) \<Rightarrow> bool" where
  "oneStudentPerJob a \<longleftrightarrow> (\<forall>s t j. a s = Some j \<and> a t = Some j \<longrightarrow> s = t)"

text \<open>
  How the history \<open>h\<close> after a run relates to the history \<open>h0\<close> before it, given the
  assignments \<open>a\<close> of the run.
\<close>

definition historyGrowth ::
  "(int \<rightharpoonup> string list) \<Rightarrow> (int \<rightharpoonup> string) \<Rightarrow> (int \<rightharpoonup> string list) \<Rightarrow> bool" where
  "historyGrowth h0 a h \<longleftrightarrow>
     (\<forall>s. a s = None \<longrightarrow> h s = h0 s)
     \<and> (\<forall>s j. a s = Some j \<longrightarrow> h s = Some (historyOf h0 s @ [j]))"

text \<open>
  The job is among the last two entries of the student's history: it stands at a position
  of the history with at most one entry after it.
\<close>

definition recentlyHeld :: "(int \<rightharpoonup> string list) \<Rightarrow> string \<Rightarrow> int \<Rightarrow> bool" where
  "recentlyHeld h job s \<longleftrightarrow>
     (\<exists>i<length (historyOf h s). length (historyOf h s) \<le> i + 2 \<and> historyOf h s ! i = job)"

text \<open>
  The values a run of \<open>generateWeeklyAssignments\<close> computes before the job loop when both
  rosters are non-empty: the draws left after lines 291-297, the weekly pool
  \<^verbatim>\<open>availableStudentsForThisWeek\<close> (line 300), the job order \<^verbatim>\<open>shuffledJobTitles\<close> (line 303)
  and the variables of the loop as it starts. \<open>weekBefore rnd st k\<close> is the state of the loop
  when the first \<open>k\<close> jobs of the job order are done, \<open>eligibleBefore rnd st k\<close> the eligible
  list of the pass that follows.
\<close>

definition cycleDraws :: "rng \<Rightarrow> AppState \<Rightarrow> rng" where
  "cycleDraws rnd st = fst (snd (startCycle rnd st []))"

definition weeklyPool :: "rng \<Rightarrow> AppState \<Rightarrow> int list" where
  "weeklyPool rnd st = fst (shuffleArray (cycleDraws rnd st) (students st))"

definition jobOrder :: "rng \<Rightarrow> AppState \<Rightarrow> string list" where
  "jobOrder rnd st =
     fst (shuffleArray (snd (shuffleArray (cycleDraws rnd st) (students st))) (jobTitles st))"

definition weekStart :: "rng \<Rightarrow> AppState \<Rightarrow> week" where
  "weekStart rnd st =
     \<lparr>newCurrentAssignments = Map.empty,
      newStudentJobHistory = studentJobHistory st,
      newRemainingStudentsInCycle = fst (startCycle rnd st []),
      studentsAssignedThisWeek = {},
      message = snd (snd (startCycle rnd st
        (if length (students st) < length (jobTitles st) then [MoreJobsThanStudents] else [])))\<rparr>"

definition weekBefore :: "rng \<Rightarrow> AppState \<Rightarrow> nat \<Rightarrow> week" where
  "weekBefore rnd st k =
     foldl (assignJob (weeklyPool rnd st)) (weekStart rnd st) (take k (jobOrder rnd st))"

definition eligibleBefore :: "rng \<Rightarrow> AppState \<Rightarrow> nat \<Rightarrow> int list" where
  "eligibleBefore rnd st k = eligibleStudents (weeklyPool rnd st) (weekBefore rnd st k)"

subsection \<open>Facts about shuffleArray\<close>

lemma randomIndex_le: "nat \<lfloor>Rep_rand01 r * real (Suc n)\<rfloor> \<le> n"
proof -
  have r: "0 \<le> Rep_rand01 r" "Rep_rand01 r < 1" using Rep_rand01 [of r] by auto
  have "Rep_rand01 r * real (Suc n) < real (Suc n)" using r by simp
  then have "\<lfloor>Rep_rand01 r * real (Suc n)\<rfloor> < int (Suc n)"
    by (simp add: floor_less_iff)
  then show ?thesis by linarith
qed

lemma mset_swapCells:
  "i < length xs \<Longrightarrow> j < length xs \<Longrightarrow> mset (swapCells xs i j) = mset xs"
  unfolding swapCells_def by (simp add: mset_swap)

lemma length_swapCells [simp]: "length (swapCells xs i j) = length xs"
  by (simp add: swapCells_def)

lemma mset_shuffleLoop:
  "n \<le> length xs \<Longrightarrow> mset (fst (shuffleLoop rnd n xs)) = mset xs"
proof (induction n arbitrary: rnd xs)
  case 0
  then show ?case by simp
next
  case (Suc n)
  let ?r = "nat \<lfloor>Rep_rand01 (rnd 0) * real (Suc n)\<rfloor>"
  have "?r \<le> n" by (rule randomIndex_le)
  with Suc.prems have "mset (swapCells xs n ?r) = mset xs"
    by (intro mset_swapCells) auto
  moreover have "n \<le> length (swapCells xs n ?r)" using Suc.prems by simp
  ultimately show ?case using Suc.IH [of "swapCells xs n ?r" "\<lambda>i. rnd (Suc i)"]
    by (simp add: Let_def)
qed

lemma mset_shuffleArray: "mset (fst (shuffleArray rnd xs)) = mset xs"
  by (simp add: shuffleArray_def mset_shuffleLoop)

subsection \<open>Facts about one pass of the job loop\<close>

lemma indexOf_ge: "- 1 \<le> indexOf xs x"
  by (induction xs) (auto simp: Let_def)

lemma indexOf_absent: "indexOf xs x < 0 \<longleftrightarrow> x \<notin> set xs"
  using indexOf_ge [of _ x] by (induction xs) (auto simp: Let_def)

lemma removeFromCycle_remove1: "removeFromCycle cycle s = remove1 s cycle"
proof (induction cycle)
  case Nil
  then show ?case by (simp add: removeFromCycle_def)
next
  case (Cons y ys)
  show ?case
  proof (cases "y = s")
    case True
    then show ?thesis by (simp add: removeFromCycle_def spliceOne_def)
  next
    case False
    show ?thesis
    proof (cases "s \<in> set ys")
      case True
      then have i: "0 \<le> indexOf ys s" using indexOf_absent [of ys s] by simp
      then have "nat (indexOf ys s + 1) = Suc (nat (indexOf ys s))" by simp
      with Cons False i show ?thesis
        by (simp add: removeFromCycle_def spliceOne_def Let_def)
    next
      case False
      then have "indexOf ys s < 0" by (simp add: indexOf_absent)
      with \<open>y \<noteq> s\<close> False show ?thesis
        by (simp add: removeFromCycle_def Let_def remove1_idem)
    qed
  qed
qed

lemma findNotRecent_find:
  "findNotRecent h job xs = find (\<lambda>s. job \<notin> set (recentHistoryJobs (historyOf h s))) xs"
  by (induction xs) auto

lemma findNeverHad_find:
  "findNeverHad h job xs = find (\<lambda>s. job \<notin> set (historyOf h s)) xs"
  by (induction xs) auto

lemma recent_subset: "set (recentHistoryJobs history) \<subseteq> set history"
  by (simp add: recentHistoryJobs_def set_drop_subset)

lemma tier2_unreachable:
  "findNotRecent h job xs = None \<Longrightarrow> findNeverHad h job xs = None"
  using recent_subset by (induction xs) (auto split: if_splits)

lemma pickStudent_cases:
  assumes "xs \<noteq> []"
  obtains (tier1) s where "findNotRecent h job xs = Some s" "pickStudent h job xs = (Some s, [])"
  | (tier3) "findNotRecent h job xs = None" 
      "pickStudent h job xs = (Some (hd xs), [HadBeforeWarning (hd xs) job])"
proof (cases "findNotRecent h job xs")
  case None
  then have "findNeverHad h job xs = None" by (rule tier2_unreachable)
  with None assms have "pickStudent h job xs = (Some (hd xs), [HadBeforeWarning (hd xs) job])"
    by (simp add: pickStudent_def hd_conv_nth)
  with None show ?thesis by (rule tier3)
next
  case (Some s)
  then have "pickStudent h job xs = (Some s, [])" by (simp add: pickStudent_def)
  with Some show ?thesis by (rule tier1)
qed

lemma findNotRecent_mem: "findNotRecent h job xs = Some s \<Longrightarrow> s \<in> set xs"
  by (induction xs) (auto split: if_splits)

lemma recordAssignment_simps [simp]:
  "newCurrentAssignments (recordAssignment w s job) = (newCurrentAssignments w)(s \<mapsto> job)"
  "studentsAssignedThisWeek (recordAssignment w s job) = insert s (studentsAssignedThisWeek w)"
  "newStudentJobHistory (recordAssignment w s job)
     = (newStudentJobHistory w)(s \<mapsto> historyOf (newStudentJobHistory w) s @ [job])"
  "newRemainingStudentsInCycle (recordAssignment w s job)
     = remove1 s (newRemainingStudentsInCycle w)"
  "message (recordAssignment w s job) = message w"
  by (simp_all add: recordAssignment_def removeFromCycle_remove1)

text \<open>
  One pass either skips the job, or gives it to a student of the eligible list; the
  warning that comes with the pick is none or the one for a job held before.
\<close>

lemma assignJob_cases [case_names skip assign]:
  assumes skip: "eligibleStudents pool w = [] \<Longrightarrow> P (w\<lparr>message := message w @ [JobsSkipped]\<rparr>)"
    and assign: "\<And>s m. s \<in> set (eligibleStudents pool w) \<Longrightarrow>
        pickStudent (newStudentJobHistory w) job (eligibleStudents pool w) = (Some s, m) \<Longrightarrow>
        m = [] \<or> m = [HadBeforeWarning s job] \<Longrightarrow>
        P (recordAssignment (w\<lparr>message := message w @ m\<rparr>) s job)"
  shows "P (assignJob pool w job)"
proof (cases "eligibleStudents pool w = []")
  case True
  with skip show ?thesis by (simp add: assignJob_def)
next
  case False
  then show ?thesis
  proof (cases rule: pickStudent_cases [of _ "newStudentJobHistory w" job])
    case (tier1 s)
    from tier1(1) have "s \<in> set (eligibleStudents pool w)" by (rule findNotRecent_mem)
    from assign [OF this tier1(2)] False tier1(2) show ?thesis
      by (simp add: assignJob_def Let_def)
  next
    case tier3
    from False have "hd (eligibleStudents pool w) \<in> set (eligibleStudents pool w)" by simp
    from assign [OF this tier3(2)] False tier3(2) show ?thesis
      by (simp add: assignJob_def Let_def)
  qed
qed

subsection \<open>Facts about the whole job loop\<close>

lemma eligibleStudents_mem:
  "s \<in> set (eligibleStudents pool w) \<longleftrightarrow> s \<in> set pool \<and> s \<notin> studentsAssignedThisWeek w"
  by (simp add: eligibleStudents_def)

lemma eligibleStudents_message [simp]:
  "eligibleStudents pool (w\<lparr>message := m\<rparr>) = eligibleStudents pool w"
  by (simp add: eligibleStudents_def)

lemma subseq_remove1: "subseq (remove1 x xs) xs"
  by (induction xs) auto

lemma remove1_as_filter: "distinct xs \<Longrightarrow> remove1 x xs = filter (\<lambda>y. x \<noteq> y) xs"
  by (simp add: distinct_remove1_removeAll removeAll_filter_not_eq)

text \<open>Every student with an assignment is marked as assigned this week, and conversely.\<close>

lemma assignJob_dom:
  assumes "dom (newCurrentAssignments w) = studentsAssignedThisWeek w"
  shows "dom (newCurrentAssignments (assignJob pool w job))
         = studentsAssignedThisWeek (assignJob pool w job)"
  by (rule assignJob_cases [of pool w _ job]) (use assms [symmetric] in auto)

lemma run_dom:
  assumes "dom (newCurrentAssignments w) = studentsAssignedThisWeek w"
  shows "dom (newCurrentAssignments (foldl (assignJob pool) w jobs))
         = studentsAssignedThisWeek (foldl (assignJob pool) w jobs)"
  using assms by (induction jobs arbitrary: w) (auto simp: assignJob_dom)

text \<open>An assignment, once made, stays.\<close>

lemma assignJob_mono:
  assumes "dom (newCurrentAssignments w) = studentsAssignedThisWeek w"
    and "newCurrentAssignments w s = Some j"
  shows "newCurrentAssignments (assignJob pool w job) s = Some j"
proof (rule assignJob_cases [of pool w _ job])
  show "newCurrentAssignments (w\<lparr>message := message w @ [JobsSkipped]\<rparr>) s = Some j"
    using assms by simp
next
  fix t m
  assume "t \<in> set (eligibleStudents pool w)"
  then have "t \<notin> dom (newCurrentAssignments w)" using assms(1) by (simp add: eligibleStudents_mem)
  with assms(2) have "t \<noteq> s" by auto
  with assms(2)
  show "newCurrentAssignments (recordAssignment (w\<lparr>message := message w @ m\<rparr>) t job) s = Some j"
    by simp
qed

lemma run_mono:
  assumes "dom (newCurrentAssignments w) = studentsAssignedThisWeek w"
    and "newCurrentAssignments w s = Some j"
  shows "newCurrentAssignments (foldl (assignJob pool) w jobs) s = Some j"
  using assms by (induction jobs arbitrary: w) (auto simp: assignJob_dom assignJob_mono)

text \<open>A new assignment is of the job of the pass, to a student of the pool without one.\<close>

lemma assignJob_new:
  assumes "dom (newCurrentAssignments w) = studentsAssignedThisWeek w"
    and "newCurrentAssignments (assignJob pool w job) s = Some j"
    and "newCurrentAssignments w s = None"
  shows "j = job \<and> s \<in> set pool
    \<and> (\<forall>t. newCurrentAssignments (assignJob pool w job) t = Some job
          \<and> newCurrentAssignments w t = None \<longrightarrow> t = s)"
proof -
  have "newCurrentAssignments (assignJob pool w job) s = Some j \<longrightarrow>
    newCurrentAssignments w s = None \<longrightarrow>
    j = job \<and> s \<in> set pool
    \<and> (\<forall>t. newCurrentAssignments (assignJob pool w job) t = Some job
          \<and> newCurrentAssignments w t = None \<longrightarrow> t = s)"
    by (rule assignJob_cases [of pool w _ job])
       (auto simp: eligibleStudents_mem split: if_splits)
  with assms(2,3) show ?thesis by blast
qed

text \<open>No job is held by two students, as long as the jobs of the run are all different.\<close>

lemma run_oneStudentPerJob:
  assumes "distinct jobs"
    and "dom (newCurrentAssignments w) = studentsAssignedThisWeek w"
    and "\<forall>s j. newCurrentAssignments w s = Some j \<longrightarrow> j \<notin> set jobs"
    and "oneStudentPerJob (newCurrentAssignments w)"
  shows "oneStudentPerJob (newCurrentAssignments (foldl (assignJob pool) w jobs))"
  using assms
proof (induction jobs arbitrary: w)
  case Nil
  then show ?case by simp
next
  case (Cons job jobs)
  let ?w = "assignJob pool w job"
  have d: "dom (newCurrentAssignments ?w) = studentsAssignedThisWeek ?w"
    using Cons.prems(2) by (rule assignJob_dom)
  have new: "j = job \<and> (\<forall>t. newCurrentAssignments ?w t = Some job
          \<and> newCurrentAssignments w t = None \<longrightarrow> t = s)"
    if "newCurrentAssignments ?w s = Some j" "newCurrentAssignments w s = None" for s j
    using assignJob_new [OF Cons.prems(2) that] by blast
  have old: "newCurrentAssignments ?w s = Some j"
    if "newCurrentAssignments w s = Some j" for s j
    using Cons.prems(2) that by (rule assignJob_mono)
  have fresh: "\<forall>s j. newCurrentAssignments ?w s = Some j \<longrightarrow> j \<notin> set jobs"
  proof (intro allI impI)
    fix s j assume a: "newCurrentAssignments ?w s = Some j"
    show "j \<notin> set jobs"
    proof (cases "newCurrentAssignments w s")
      case None
      with new [OF a] Cons.prems(1) show ?thesis by auto
    next
      case (Some j')
      with old [of s j'] a Cons.prems(3) show ?thesis by auto
    qed
  qed
  have one: "oneStudentPerJob (newCurrentAssignments ?w)"
    unfolding oneStudentPerJob_def
  proof (intro allI impI, elim conjE)
    fix s t j
    assume s: "newCurrentAssignments ?w s = Some j" and t: "newCurrentAssignments ?w t = Some j"
    show "s = t"
    proof (cases "newCurrentAssignments w s")
      case None
      note sn = this
      with new [OF s] have j: "j = job" by blast
      show ?thesis
      proof (cases "newCurrentAssignments w t")
        case None
        with new [OF s sn] t j show ?thesis by auto
      next
        case (Some j')
        with old [of t j'] t j Cons.prems(3) show ?thesis by auto
      qed
    next
      case (Some j')
      note ss = this
      with old [of s j'] s have j': "j' = j" by simp
      show ?thesis
      proof (cases "newCurrentAssignments w t")
        case None
        with new [OF t] have "j = job" by blast
        with ss j' Cons.prems(3) show ?thesis by auto
      next
        case (Some j'')
        with old [of t j''] t have "j'' = j" by simp
        with Some ss j' Cons.prems(4) show ?thesis unfolding oneStudentPerJob_def by blast
      qed
    qed
  qed
  from Cons.IH [OF _ d fresh one] Cons.prems(1) show ?case by simp
qed

text \<open>
  The history of a student with an assignment is the old one with the job appended;
  the history of a student without one is untouched.
\<close>

lemma assignJob_history:
  assumes "dom (newCurrentAssignments w) = studentsAssignedThisWeek w"
    and "historyGrowth h0 (newCurrentAssignments w) (newStudentJobHistory w)"
  shows "historyGrowth h0 (newCurrentAssignments (assignJob pool w job))
           (newStudentJobHistory (assignJob pool w job))"
proof (rule assignJob_cases [of pool w _ job])
  show "historyGrowth h0 (newCurrentAssignments (w\<lparr>message := message w @ [JobsSkipped]\<rparr>))
     (newStudentJobHistory (w\<lparr>message := message w @ [JobsSkipped]\<rparr>))"
    using assms(2) by simp
next
  fix t m
  assume "t \<in> set (eligibleStudents pool w)"
  then have none: "newCurrentAssignments w t = None"
    using assms(1) by (auto simp: eligibleStudents_mem)
  have "newStudentJobHistory w t = h0 t"
    using assms(2) none unfolding historyGrowth_def by blast
  then have "historyOf (newStudentJobHistory w) t = historyOf h0 t"
    by (simp add: historyOf_def)
  with assms(2)
  show "historyGrowth h0
     (newCurrentAssignments (recordAssignment (w\<lparr>message := message w @ m\<rparr>) t job))
     (newStudentJobHistory (recordAssignment (w\<lparr>message := message w @ m\<rparr>) t job))"
    unfolding historyGrowth_def by auto
qed

lemma run_history:
  assumes "dom (newCurrentAssignments w) = studentsAssignedThisWeek w"
    and "historyGrowth h0 (newCurrentAssignments w) (newStudentJobHistory w)"
  shows "historyGrowth h0 (newCurrentAssignments (foldl (assignJob pool) w jobs))
           (newStudentJobHistory (foldl (assignJob pool) w jobs))"
  using assms by (induction jobs arbitrary: w) (auto simp: assignJob_dom assignJob_history)

text \<open>The cycle queue only loses students, and only those who got a job.\<close>

lemma assignJob_queue_subseq:
  "subseq (newRemainingStudentsInCycle (assignJob pool w job)) (newRemainingStudentsInCycle w)"
  by (rule assignJob_cases [of pool w _ job]) (auto simp: subseq_remove1)

lemma run_queue_subseq:
  "subseq (newRemainingStudentsInCycle (foldl (assignJob pool) w jobs))
     (newRemainingStudentsInCycle w)"
proof (induction jobs arbitrary: w)
  case Nil
  then show ?case by simp
next
  case (Cons job jobs)
  from Cons.IH [of "assignJob pool w job"] assignJob_queue_subseq [of pool w job]
  show ?case by (auto intro: subseq_order.trans)
qed

lemma assignJob_queue_filter:
  assumes "distinct q0"
    and "newRemainingStudentsInCycle w = filter (\<lambda>s. newCurrentAssignments w s = None) q0"
  shows "newRemainingStudentsInCycle (assignJob pool w job)
     = filter (\<lambda>s. newCurrentAssignments (assignJob pool w job) s = None) q0"
proof (rule assignJob_cases [of pool w _ job])
  show "newRemainingStudentsInCycle (w\<lparr>message := message w @ [JobsSkipped]\<rparr>) =
    filter (\<lambda>s. newCurrentAssignments (w\<lparr>message := message w @ [JobsSkipped]\<rparr>) s = None) q0"
    using assms(2) by simp
next
  fix t m
  have "distinct (newRemainingStudentsInCycle w)" using assms by simp
  then have "remove1 t (newRemainingStudentsInCycle w)
      = filter (\<lambda>y. t \<noteq> y) (newRemainingStudentsInCycle w)"
    by (rule remove1_as_filter)
  also have "\<dots> = filter (\<lambda>s. ((newCurrentAssignments w)(t \<mapsto> job)) s = None) q0"
    unfolding assms(2) filter_filter by (rule filter_cong) auto
  finally
  show "newRemainingStudentsInCycle (recordAssignment (w\<lparr>message := message w @ m\<rparr>) t job) =
    filter (\<lambda>s. newCurrentAssignments (recordAssignment (w\<lparr>message := message w @ m\<rparr>) t job) s
      = None) q0"
    by simp
qed

lemma run_queue_filter:
  assumes "distinct q0"
    and "newRemainingStudentsInCycle w = filter (\<lambda>s. newCurrentAssignments w s = None) q0"
  shows "newRemainingStudentsInCycle (foldl (assignJob pool) w jobs)
     = filter (\<lambda>s. newCurrentAssignments (foldl (assignJob pool) w jobs) s = None) q0"
  using assms(2)
  by (induction jobs arbitrary: w) (auto simp: assignJob_queue_filter [OF assms(1)])

text \<open>The loop never shows the warning about recent history.\<close>

lemma assignJob_no_recent_warning:
  assumes "\<forall>s j. RecentHistoryWarning s j \<notin> set (message w)"
  shows "\<forall>s j. RecentHistoryWarning s j \<notin> set (message (assignJob pool w job))"
  by (rule assignJob_cases [of pool w _ job]) (use assms in auto)

lemma run_no_recent_warning:
  assumes "\<forall>s j. RecentHistoryWarning s j \<notin> set (message w)"
  shows "\<forall>s j. RecentHistoryWarning s j \<notin> set (message (foldl (assignJob pool) w jobs))"
  using assms
proof (induction jobs arbitrary: w)
  case Nil
  then show ?case by simp
next
  case (Cons job jobs)
  from Cons.IH [OF assignJob_no_recent_warning [OF Cons.prems]] show ?case by simp
qed

text \<open>When the students left are at least as many as the jobs, every job finds a student.\<close>

lemma eligibleStudents_after:
  assumes "distinct pool" "s \<in> set (eligibleStudents pool w)"
    and that: "studentsAssignedThisWeek w' = studentsAssignedThisWeek w"
  shows "length (eligibleStudents pool (recordAssignment w' s job))
    = length (eligibleStudents pool w) - 1"
proof -
  have d: "distinct (eligibleStudents pool w)" using assms(1) by (simp add: eligibleStudents_def)
  have "eligibleStudents pool (recordAssignment w' s job)
      = filter (\<lambda>y. s \<noteq> y) (eligibleStudents pool w)"
    unfolding eligibleStudents_def filter_filter using that by (intro filter_cong) auto
  also have "\<dots> = remove1 s (eligibleStudents pool w)"
    using d by (simp add: remove1_as_filter)
  finally show ?thesis using assms(2) by (simp add: length_remove1)
qed

lemma run_covers:
  assumes "distinct pool"
    and "dom (newCurrentAssignments w) = studentsAssignedThisWeek w"
    and "length jobs \<le> length (eligibleStudents pool w)"
  shows "\<forall>j\<in>set jobs. \<exists>s\<in>set pool. newCurrentAssignments (foldl (assignJob pool) w jobs) s = Some j"
  using assms(2,3)
proof (induction jobs arbitrary: w)
  case Nil
  then show ?case by simp
next
  case (Cons job jobs)
  let ?w = "assignJob pool w job"
  have d: "dom (newCurrentAssignments ?w) = studentsAssignedThisWeek ?w"
    using Cons.prems(1) by (rule assignJob_dom)
  have step: "(\<exists>s\<in>set pool. newCurrentAssignments ?w s = Some job)
      \<and> length jobs \<le> length (eligibleStudents pool ?w)"
  proof (rule assignJob_cases [of pool w _ job])
    assume "eligibleStudents pool w = []"
    with Cons.prems(2) show "(\<exists>s\<in>set pool. newCurrentAssignments
        (w\<lparr>message := message w @ [JobsSkipped]\<rparr>) s = Some job)
      \<and> length jobs \<le> length (eligibleStudents pool (w\<lparr>message := message w @ [JobsSkipped]\<rparr>))"
      by simp
  next
    fix s m
    assume s: "s \<in> set (eligibleStudents pool w)"
    then have "s \<in> set pool" by (simp add: eligibleStudents_mem)
    moreover have "length (eligibleStudents pool
        (recordAssignment (w\<lparr>message := message w @ m\<rparr>) s job))
      = length (eligibleStudents pool w) - 1"
      using assms(1) s by (rule eligibleStudents_after) simp
    ultimately show "(\<exists>s'\<in>set pool. newCurrentAssignments
        (recordAssignment (w\<lparr>message := message w @ m\<rparr>) s job) s' = Some job)
      \<and> length jobs \<le> length (eligibleStudents pool
          (recordAssignment (w\<lparr>message := message w @ m\<rparr>) s job))"
      using Cons.prems(2) by auto
  qed
  then obtain s where s: "s \<in> set pool" "newCurrentAssignments ?w s = Some job" by blast
  from run_mono [OF d s(2), of pool jobs] s(1)
  have "\<exists>s\<in>set pool. newCurrentAssignments (foldl (assignJob pool) ?w jobs) s = Some job"
    by blast
  with Cons.IH [OF d] step show ?case by simp
qed

text \<open>What a run with non-empty rosters computes, with the shuffles named.\<close>

lemma fst_startCycle:
  "fst (startCycle rnd st msg)
     = (if remainingStudentsInCycle st = [] then fst (shuffleArray rnd (students st))
        else remainingStudentsInCycle st)"
  by (cases "shuffleArray rnd (students st)") (simp add: startCycle_def)

lemma startCycle_message:
  "snd (snd (startCycle rnd st msg)) = (if remainingStudentsInCycle st = [] then [NewCycle] else msg)"
  by (cases "shuffleArray rnd (students st)") (simp add: startCycle_def)

lemma generate_run:
  assumes "students st \<noteq> []" "jobTitles st \<noteq> []"
  obtains pool jobs m w where
    "mset pool = mset (students st)" "mset jobs = mset (jobTitles st)"
    "\<forall>s j. RecentHistoryWarning s j \<notin> set m"
    "w = foldl (assignJob pool)
           \<lparr>newCurrentAssignments = Map.empty,
            newStudentJobHistory = studentJobHistory st,
            newRemainingStudentsInCycle = fst (startCycle rnd st []),
            studentsAssignedThisWeek = {},
            message = m\<rparr> jobs"
    "generateWeeklyAssignments rnd now st =
       \<lparr>shown = (if newRemainingStudentsInCycle w = [] then message w @ [CycleComplete]
                 else message w),
        saved = Some (st\<lparr>currentAssignments := newCurrentAssignments w,
                          remainingStudentsInCycle := newRemainingStudentsInCycle w,
                          studentJobHistory := newStudentJobHistory w,
                          lastAssignmentDate := Some now\<rparr>)\<rparr>"
proof -
  let ?msg0 = "if length (students st) < length (jobTitles st) then [MoreJobsThanStudents] else []"
  obtain cycle rnd1 msg1 where sc: "startCycle rnd st ?msg0 = (cycle, rnd1, msg1)"
    by (cases "startCycle rnd st ?msg0") auto
  obtain pool rnd2 where sp: "shuffleArray rnd1 (students st) = (pool, rnd2)"
    by (cases "shuffleArray rnd1 (students st)") auto
  obtain jobs rnd3 where sj: "shuffleArray rnd2 (jobTitles st) = (jobs, rnd3)"
    by (cases "shuffleArray rnd2 (jobTitles st)") auto
  have cycle: "cycle = fst (startCycle rnd st [])"
    using sc fst_startCycle [of rnd st ?msg0] fst_startCycle [of rnd st "[]"] by simp
  have msg1: "\<forall>s j. RecentHistoryWarning s j \<notin> set msg1"
    using sc startCycle_message [of rnd st ?msg0] by (auto split: if_splits)
  have pool: "mset pool = mset (students st)"
    using mset_shuffleArray [of rnd1 "students st"] sp by simp
  have jobs: "mset jobs = mset (jobTitles st)"
    using mset_shuffleArray [of rnd2 "jobTitles st"] sj by simp
  show ?thesis
    by (rule that [OF pool jobs msg1 refl])
       (use assms in \<open>simp add: generateWeeklyAssignments_def Let_def sc sp sj cycle\<close>)
qed

text \<open>Each student loses one entry of the cycle queue when assigned, none otherwise.\<close>

lemma count_list_remove1:
  "count_list (remove1 t q) s = (if s = t then count_list q s - 1 else count_list q s)"
  by (induction q) auto

lemma assignJob_queue_count:
  assumes "dom (newCurrentAssignments w) = studentsAssignedThisWeek w"
    and "\<forall>s. count_list (newRemainingStudentsInCycle w) s
           = count_list q0 s - (if newCurrentAssignments w s = None then 0 else 1)"
  shows "\<forall>s. count_list (newRemainingStudentsInCycle (assignJob pool w job)) s
           = count_list q0 s - (if newCurrentAssignments (assignJob pool w job) s = None then 0 else 1)"
proof (rule assignJob_cases [of pool w _ job])
  show "\<forall>s. count_list (newRemainingStudentsInCycle (w\<lparr>message := message w @ [JobsSkipped]\<rparr>)) s
     = count_list q0 s
       - (if newCurrentAssignments (w\<lparr>message := message w @ [JobsSkipped]\<rparr>) s = None
          then 0 else 1)"
    using assms(2) by simp
next
  fix t m
  assume "t \<in> set (eligibleStudents pool w)"
  then have none: "newCurrentAssignments w t = None"
    using assms(1) by (auto simp: eligibleStudents_mem)
  show "\<forall>s. count_list (newRemainingStudentsInCycle
          (recordAssignment (w\<lparr>message := message w @ m\<rparr>) t job)) s
     = count_list q0 s
       - (if newCurrentAssignments (recordAssignment (w\<lparr>message := message w @ m\<rparr>) t job) s
             = None then 0 else 1)"
    using assms(2) none by (simp add: count_list_remove1)
qed

lemma run_queue_count:
  assumes "dom (newCurrentAssignments w) = studentsAssignedThisWeek w"
    and "\<forall>s. count_list (newRemainingStudentsInCycle w) s
           = count_list q0 s - (if newCurrentAssignments w s = None then 0 else 1)"
  shows "\<forall>s. count_list (newRemainingStudentsInCycle (foldl (assignJob pool) w jobs)) s
           = count_list q0 s
             - (if newCurrentAssignments (foldl (assignJob pool) w jobs) s = None then 0 else 1)"
  using assms
proof (induction jobs arbitrary: w)
  case Nil
  then show ?case by simp
next
  case (Cons job jobs)
  from Cons.IH [OF assignJob_dom [OF Cons.prems(1)] assignJob_queue_count [OF Cons.prems]]
  show ?case by simp
qed

text \<open>Assignments go to students of the pool and are of jobs of the run.\<close>

lemma run_range:
  assumes "dom (newCurrentAssignments w) = studentsAssignedThisWeek w"
    and "newCurrentAssignments (foldl (assignJob pool) w jobs) s = Some j"
  shows "newCurrentAssignments w s = Some j \<or> (s \<in> set pool \<and> j \<in> set jobs)"
  using assms
proof (induction jobs arbitrary: w)
  case Nil
  then show ?case by simp
next
  case (Cons job jobs)
  let ?w = "assignJob pool w job"
  from Cons.IH [OF assignJob_dom [OF Cons.prems(1)]] Cons.prems(2)
  have "newCurrentAssignments ?w s = Some j \<or> (s \<in> set pool \<and> j \<in> set jobs)" by simp
  then show ?case
  proof
    assume a: "newCurrentAssignments ?w s = Some j"
    show ?thesis
    proof (cases "newCurrentAssignments w s")
      case None
      with assignJob_new [OF Cons.prems(1) a] show ?thesis by simp
    next
      case (Some j')
      with assignJob_mono [OF Cons.prems(1) Some, of pool job] a show ?thesis by simp
    qed
  qed simp
qed

subsection \<open>Two runs computed\<close>

lemmas run_defs = generateWeeklyAssignments_def startCycle_def shuffleArray_def swapCells_def
  assignJob_def eligibleStudents_def pickStudent_def recordAssignment_def removeFromCycle_def
  spliceOne_def historyOf_def recentHistoryJobs_def zeroDraws_def draw_zero.rep_eq Let_def

text \<open>
  With every draw 0, a list of three is shuffled to its second, third and first element
  and a list of two is reversed. In \<open>exampleState\<close> job B goes to student 2 and job A to
  student 3; in \<open>cycleOverState\<close> the queue is refilled to \<open>[2, 1]\<close> and job A goes to
  student 2.
\<close>

lemma run_exampleState:
  "generateWeeklyAssignments zeroDraws now exampleState =
     \<lparr>shown = [],
      saved = Some (exampleState\<lparr>currentAssignments := [2 \<mapsto> ''B'', 3 \<mapsto> ''A''],
        remainingStudentsInCycle := [1],
        studentJobHistory := [2 \<mapsto> [''B''], 3 \<mapsto> [''A'']],
        lastAssignmentDate := Some now\<rparr>)\<rparr>"
  by (simp add: run_defs exampleState_def)

lemma run_cycleOverState:
  "generateWeeklyAssignments zeroDraws now cycleOverState =
     \<lparr>shown = [NewCycle],
      saved = Some (cycleOverState\<lparr>currentAssignments := [2 \<mapsto> ''A''],
        remainingStudentsInCycle := [1],
        studentJobHistory := [2 \<mapsto> [''A'']],
        lastAssignmentDate := Some now\<rparr>)\<rparr>"
  by (simp add: run_defs exampleState_def cycleOverState_def)

lemma startCycle_cycleOverState: "fst (startCycle zeroDraws cycleOverState msg) = [2, 1]"
  by (simp add: run_defs exampleState_def cycleOverState_def)

text \<open>The last two entries of a history, by position.\<close>

lemma in_recentHistoryJobs:
  "job \<in> set (recentHistoryJobs history)
     \<longleftrightarrow> (\<exists>i<length history. length history \<le> i + 2 \<and> history ! i = job)"
proof
  assume "job \<in> set (recentHistoryJobs history)"
  then obtain j where j: "j < length history - (length history - 2)"
    "drop (length history - 2) history ! j = job"
    unfolding recentHistoryJobs_def by (auto simp: in_set_conv_nth)
  then have "length history - 2 + j < length history"
    "length history \<le> (length history - 2 + j) + 2"
    "history ! (length history - 2 + j) = job"
    by auto
  then show "\<exists>i<length history. length history \<le> i + 2 \<and> history ! i = job" by blast
next
  assume "\<exists>i<length history. length history \<le> i + 2 \<and> history ! i = job"
  then obtain i where i: "i < length history" "length history \<le> i + 2" "history ! i = job"
    by blast
  then have "drop (length history - 2) history ! (i - (length history - 2)) = job"
    "i - (length history - 2) < length (drop (length history - 2) history)"
    by auto
  then show "job \<in> set (recentHistoryJobs history)"
    unfolding recentHistoryJobs_def by (metis nth_mem)
qed

lemma recentlyHeld_iff:
  "recentlyHeld h job s \<longleftrightarrow> job \<in> set (recentHistoryJobs (historyOf h s))"
  by (simp add: recentlyHeld_def in_recentHistoryJobs)

text \<open>The first loop returns the first student who has not held the job recently.\<close>

lemma findNotRecent_Some:
  assumes "findNotRecent h job xs = Some s"
  shows "s \<in> set xs \<and> \<not> recentlyHeld h job s
    \<and> s = hd (filter (\<lambda>e. \<not> recentlyHeld h job e) xs)"
  using assms by (induction xs) (auto simp: recentlyHeld_iff split: if_splits)

lemma findNotRecent_None:
  "findNotRecent h job xs = None \<longleftrightarrow> (\<forall>e\<in>set xs. recentlyHeld h job e)"
  by (induction xs) (auto simp: recentlyHeld_iff)

text \<open>The rule of one pass, for any state of the loop.\<close>

lemma pass_preference:
  "(eligibleStudents pool w = [] \<longrightarrow>
      newCurrentAssignments (assignJob pool w job) = newCurrentAssignments w)
   \<and> (eligibleStudents pool w \<noteq> [] \<longrightarrow>
      (\<exists>s\<in>set (eligibleStudents pool w).
         newCurrentAssignments (assignJob pool w job) = (newCurrentAssignments w)(s \<mapsto> job)
         \<and> (recentlyHeld (newStudentJobHistory w) job s \<longrightarrow>
              (\<forall>e\<in>set (eligibleStudents pool w). recentlyHeld (newStudentJobHistory w) job e))
         \<and> ((\<exists>e\<in>set (eligibleStudents pool w). \<not> recentlyHeld (newStudentJobHistory w) job e) \<longrightarrow>
              s = hd (filter (\<lambda>e. \<not> recentlyHeld (newStudentJobHistory w) job e)
                        (eligibleStudents pool w)))
         \<and> ((\<forall>e\<in>set (eligibleStudents pool w). recentlyHeld (newStudentJobHistory w) job e) \<longrightarrow>
              s = (case findNeverHad (newStudentJobHistory w) job (eligibleStudents pool w) of
                     Some t \<Rightarrow> t | None \<Rightarrow> eligibleStudents pool w ! 0))))"
proof (cases "eligibleStudents pool w = []")
  case True
  then show ?thesis by (simp add: assignJob_def)
next
  case False
  let ?E = "eligibleStudents pool w" and ?h = "newStudentJobHistory w"
  from False show ?thesis
  proof (cases rule: pickStudent_cases [of _ ?h job])
    case (tier1 s)
    from findNotRecent_Some [OF tier1(1)]
    have s: "s \<in> set ?E" "\<not> recentlyHeld ?h job s"
      "s = hd (filter (\<lambda>e. \<not> recentlyHeld ?h job e) ?E)"
      by auto
    have "newCurrentAssignments (assignJob pool w job) = (newCurrentAssignments w)(s \<mapsto> job)"
      using False tier1(2) by (simp add: assignJob_def Let_def)
    with s False show ?thesis by auto
  next
    case tier3
    have all: "\<forall>e\<in>set ?E. recentlyHeld ?h job e"
      using tier3(1) by (simp add: findNotRecent_None)
    have never: "findNeverHad ?h job ?E = None"
      using tier3(1) by (rule tier2_unreachable)
    have hd: "hd ?E \<in> set ?E" "hd ?E = ?E ! 0" using False by (simp_all add: hd_conv_nth)
    have "newCurrentAssignments (assignJob pool w job)
        = (newCurrentAssignments w)(hd ?E \<mapsto> job)"
      using False tier3(2) by (simp add: assignJob_def Let_def)
    with all never hd False show ?thesis by auto
  qed
qed

subsection \<open>The passes of a run\<close>

lemma startCycle_draws:
  "fst (snd (startCycle rnd st msg)) = cycleDraws rnd st"
  by (cases "shuffleArray rnd (students st)") (simp add: startCycle_def cycleDraws_def)

lemma generate_passes:
  assumes "students st \<noteq> []" "jobTitles st \<noteq> []"
  shows "generateWeeklyAssignments rnd now st =
     \<lparr>shown =
        (if newRemainingStudentsInCycle (weekBefore rnd st (length (jobOrder rnd st))) = []
         then message (weekBefore rnd st (length (jobOrder rnd st))) @ [CycleComplete]
         else message (weekBefore rnd st (length (jobOrder rnd st)))),
      saved = Some (st
        \<lparr>currentAssignments :=
           newCurrentAssignments (weekBefore rnd st (length (jobOrder rnd st))),
         remainingStudentsInCycle :=
           newRemainingStudentsInCycle (weekBefore rnd st (length (jobOrder rnd st))),
         studentJobHistory :=
           newStudentJobHistory (weekBefore rnd st (length (jobOrder rnd st))),
         lastAssignmentDate := Some now\<rparr>)\<rparr>"
proof -
  let ?msg0 = "if length (students st) < length (jobTitles st) then [MoreJobsThanStudents] else []"
  obtain cycle rnd1 msg1 where sc: "startCycle rnd st ?msg0 = (cycle, rnd1, msg1)"
    by (cases "startCycle rnd st ?msg0") auto
  obtain pool rnd2 where sp: "shuffleArray rnd1 (students st) = (pool, rnd2)"
    by (cases "shuffleArray rnd1 (students st)") auto
  obtain jobs rnd3 where sj: "shuffleArray rnd2 (jobTitles st) = (jobs, rnd3)"
    by (cases "shuffleArray rnd2 (jobTitles st)") auto
  have cycle: "fst (startCycle rnd st []) = cycle"
    using sc fst_startCycle [of rnd st ?msg0] fst_startCycle [of rnd st "[]"] by simp
  have rnd1: "cycleDraws rnd st = rnd1"
    using sc startCycle_draws [of rnd st ?msg0] by simp
  have msg1: "snd (snd (startCycle rnd st ?msg0)) = msg1" using sc by simp
  have pool: "weeklyPool rnd st = pool" by (simp add: weeklyPool_def rnd1 sp)
  have jobs: "jobOrder rnd st = jobs" by (simp add: jobOrder_def rnd1 sp sj)
  have start: "weekStart rnd st =
      \<lparr>newCurrentAssignments = Map.empty, newStudentJobHistory = studentJobHistory st,
       newRemainingStudentsInCycle = cycle, studentsAssignedThisWeek = {}, message = msg1\<rparr>"
    unfolding weekStart_def cycle msg1 by simp
  have "weekBefore rnd st (length (jobOrder rnd st)) =
      foldl (assignJob pool)
        \<lparr>newCurrentAssignments = Map.empty, newStudentJobHistory = studentJobHistory st,
         newRemainingStudentsInCycle = cycle, studentsAssignedThisWeek = {}, message = msg1\<rparr> jobs"
    by (simp add: weekBefore_def pool jobs start)
  then show ?thesis
    using assms by (simp add: generateWeeklyAssignments_def Let_def sc sp sj)
qed

lemma mset_weeklyPool: "mset (weeklyPool rnd st) = mset (students st)"
  by (simp add: weeklyPool_def mset_shuffleArray)

lemma mset_jobOrder: "mset (jobOrder rnd st) = mset (jobTitles st)"
  by (simp add: jobOrder_def mset_shuffleArray)

lemma weekBefore_Suc:
  assumes "k < length (jobOrder rnd st)"
  shows "weekBefore rnd st (Suc k)
    = assignJob (weeklyPool rnd st) (weekBefore rnd st k) (jobOrder rnd st ! k)"
  using assms by (simp add: weekBefore_def take_Suc_conv_app_nth)

lemma weekBefore_dom:
  "dom (newCurrentAssignments (weekBefore rnd st k)) = studentsAssignedThisWeek (weekBefore rnd st k)"
  unfolding weekBefore_def by (rule run_dom) (simp add: weekStart_def)

lemma weekBefore_history:
  "historyGrowth (studentJobHistory st) (newCurrentAssignments (weekBefore rnd st k))
     (newStudentJobHistory (weekBefore rnd st k))"
  unfolding weekBefore_def by (rule run_history) (simp_all add: weekStart_def historyGrowth_def)

lemma weekBefore_end:
  assumes "k \<le> length (jobOrder rnd st)"
  shows "weekBefore rnd st (length (jobOrder rnd st))
    = foldl (assignJob (weeklyPool rnd st)) (weekBefore rnd st k) (drop k (jobOrder rnd st))"
proof -
  have "foldl (assignJob (weeklyPool rnd st)) (weekStart rnd st)
      (take k (jobOrder rnd st) @ drop k (jobOrder rnd st))
    = foldl (assignJob (weeklyPool rnd st)) (weekBefore rnd st k) (drop k (jobOrder rnd st))"
    unfolding foldl_append weekBefore_def ..
  then show ?thesis by (simp add: weekBefore_def)
qed

text \<open>An eligible student has the history they had before the run.\<close>

lemma eligibleBefore_history:
  assumes "e \<in> set (eligibleBefore rnd st k)"
  shows "newStudentJobHistory (weekBefore rnd st k) e = studentJobHistory st e"
proof -
  from assms have "e \<notin> studentsAssignedThisWeek (weekBefore rnd st k)"
    by (simp add: eligibleBefore_def eligibleStudents_mem)
  then have "newCurrentAssignments (weekBefore rnd st k) e = None"
    using weekBefore_dom [of rnd st k] by auto
  with weekBefore_history [of st rnd k] show ?thesis
    unfolding historyGrowth_def by blast
qed

lemma recentlyHeld_cong:
  "h e = h' e \<Longrightarrow> recentlyHeld h job e = recentlyHeld h' job e"
  by (simp add: recentlyHeld_def historyOf_def)

lemma findNeverHad_cong:
  "\<forall>e\<in>set xs. h e = h' e \<Longrightarrow> findNeverHad h job xs = findNeverHad h' job xs"
proof (induction xs)
  case Nil
  then show ?case by simp
next
  case (Cons a xs)
  then have "historyOf h a = historyOf h' a" by (simp add: historyOf_def)
  with Cons show ?case by simp
qed

subsection \<open>The passes of three runs, computed\<close>

lemmas pass_defs = cycleDraws_def weeklyPool_def jobOrder_def weekStart_def weekBefore_def
  eligibleBefore_def

text \<open>
  With every draw 0 the pool of \<open>windowState\<close> is \<open>[2, 3, 1]\<close>; the job order of
  \<open>shortState\<close> is B, A, and its one student is taken after the first pass.
\<close>

lemma passes_windowState:
  "jobOrder zeroDraws windowState = [''B'']"
  "eligibleBefore zeroDraws windowState 0 = [2, 3, 1]"
  by (simp_all add: pass_defs run_defs windowState_def exampleState_def)

lemma recent_windowState:
  "recentlyHeld (studentJobHistory windowState) ''B'' 2"
  "\<not> recentlyHeld (studentJobHistory windowState) ''B'' 3"
  "\<not> recentlyHeld (studentJobHistory windowState) ''B'' 1"
  by (simp_all add: recentlyHeld_iff recentHistoryJobs_def historyOf_def windowState_def)

lemma passes_repeatState:
  "jobOrder zeroDraws repeatState = [''A'']"
  "eligibleBefore zeroDraws repeatState 0 = [1]"
  "recentlyHeld (studentJobHistory repeatState) ''A'' 1"
  "findNeverHad (studentJobHistory repeatState) ''A'' [1] = None"
  by (simp_all add: pass_defs run_defs recentlyHeld_iff repeatState_def exampleState_def)

lemma passes_shortState:
  "jobOrder zeroDraws shortState = [''B'', ''A'']"
  "eligibleBefore zeroDraws shortState (Suc 0) = []"
  by (simp_all add: pass_defs run_defs shortState_def exampleState_def)

section \<open>The claims\<close>

text \<open>
  C10. For every input array and every random source, \<open>shuffleArray\<close> returns a permutation
  of its input: the same length and the same multiset of elements. Hence the cycle queue that
  a refill (\<open>startCycle\<close> on an empty queue) or a reset (\<open>resetAssignmentHistory\<close>) produces
  holds exactly the students of the roster, each as often as the roster does, so each once
  when the roster has no duplicates.
\<close>

theorem shuffleArray_is_permutation:
  "mset (fst (shuffleArray rnd array)) = mset array
   \<and> length (fst (shuffleArray rnd array)) = length array
   \<and> (remainingStudentsInCycle st = [] \<longrightarrow>
        mset (fst (startCycle rnd st msg)) = mset (students st))
   \<and> mset (remainingStudentsInCycle (stateAfter st (resetAssignmentHistory rnd st)))
        = mset (students st)
   \<and> (distinct (students st) \<longrightarrow>
        distinct (fst (shuffleArray rnd (students st)))
        \<and> set (fst (shuffleArray rnd (students st))) = set (students st))"
proof -
  have perm: "mset (fst (shuffleArray r xs)) = mset xs" for r :: rng and xs :: "'b list"
    by (rule mset_shuffleArray)
  have len: "length (fst (shuffleArray rnd array)) = length array"
    using perm [of rnd array] by (rule mset_eq_length)
  have refill: "mset (fst (startCycle rnd st msg)) = mset (students st)"
    if "remainingStudentsInCycle st = []"
    using that perm [of rnd "students st"]
    by (cases "shuffleArray rnd (students st)") (simp add: startCycle_def)
  have reset: "mset (remainingStudentsInCycle (stateAfter st (resetAssignmentHistory rnd st)))
      = mset (students st)"
    by (simp add: stateAfter_def resetAssignmentHistory_def perm)
  have once: "distinct (fst (shuffleArray rnd (students st)))
      \<and> set (fst (shuffleArray rnd (students st))) = set (students st)"
    if "distinct (students st)"
    using that perm [of rnd "students st"] by (metis mset_eq_setD mset_eq_imp_distinct_iff)
  from perm len refill reset once show ?thesis by blast
qed

theorem shuffleArray_is_permutation_witness:
  "remainingStudentsInCycle cycleOverState = [] \<and> distinct (students cycleOverState)
   \<and> fst (shuffleArray zeroDraws [1, 2, 3 :: int]) = [2, 3, 1]
   \<and> mset (fst (shuffleArray zeroDraws [1, 2, 3 :: int])) = mset [1, 2, 3]
   \<and> fst (shuffleArray halfDraws [1, 2, 3 :: int]) = [1, 3, 2]
   \<and> mset (fst (shuffleArray halfDraws [1, 2, 3 :: int])) = mset [1, 2, 3]
   \<and> mset (fst (startCycle zeroDraws cycleOverState [])) = mset (students cycleOverState)
   \<and> distinct (fst (shuffleArray zeroDraws (students cycleOverState)))"
proof -
  have z: "fst (shuffleArray zeroDraws [1, 2, 3 :: int]) = [2, 3, 1]"
    by (simp add: zeroDraws_def shuffleArray_def swapCells_def draw_zero.rep_eq)
  have h: "fst (shuffleArray halfDraws [1, 2, 3 :: int]) = [1, 3, 2]"
    by (simp add: halfDraws_def shuffleArray_def swapCells_def draw_half.rep_eq)
  have c: "remainingStudentsInCycle cycleOverState = []" "distinct (students cycleOverState)"
    by (simp_all add: cycleOverState_def exampleState_def)
  from shuffleArray_is_permutation [of zeroDraws "[1, 2, 3 :: int]" cycleOverState "[]"] c
  have a: "mset (fst (shuffleArray zeroDraws [1, 2, 3 :: int])) = mset [1, 2, 3]
    \<and> mset (fst (startCycle zeroDraws cycleOverState [])) = mset (students cycleOverState)
    \<and> distinct (fst (shuffleArray zeroDraws (students cycleOverState)))"
    by blast
  from shuffleArray_is_permutation [of halfDraws "[1, 2, 3 :: int]"]
  have b: "mset (fst (shuffleArray halfDraws [1, 2, 3 :: int])) = mset [1, 2, 3]"
    by blast
  from z h c a b show ?thesis by (intro conjI) blast+
qed

text \<open>
  C6. When the list of students or the list of job titles is empty, \<open>generateWeeklyAssignments\<close>
  shows the warning that asks for students and job titles and returns before anything else:
  it draws no random number, saves no state, and the application state (current assignments,
  history, cycle queue, date) stays as it was.
\<close>

theorem empty_roster_is_noop:
  "students st = [] \<or> jobTitles st = [] \<Longrightarrow>
     generateWeeklyAssignments rnd now st = \<lparr>shown = [EmptyRoster], saved = None\<rparr>
     \<and> stateAfter st (generateWeeklyAssignments rnd now st) = st"
  by (auto simp: generateWeeklyAssignments_def stateAfter_def)

theorem empty_roster_is_noop_witness:
  "students noStudentsState = []
   \<and> generateWeeklyAssignments zeroDraws ''2026-01-05'' noStudentsState
       = \<lparr>shown = [EmptyRoster], saved = None\<rparr>
   \<and> stateAfter noStudentsState (generateWeeklyAssignments zeroDraws ''2026-01-05'' noStudentsState)
       = noStudentsState"
proof -
  have h: "students noStudentsState = []"
    by (simp add: noStudentsState_def)
  then have "students noStudentsState = [] \<or> jobTitles noStudentsState = []" ..
  from empty_roster_is_noop [OF this, of zeroDraws "''2026-01-05''"] h show ?thesis
    by blast
qed

text \<open>
  C1. When the job titles are all different, the assignments that one call of
  \<open>generateWeeklyAssignments\<close> saves give no job to two students, and give no student two
  jobs: the map holds one job for a student, and the history of every student grows by at
  most one entry in the call. The call saves nothing only when a roster is empty.
\<close>

theorem no_double_assignment:
  assumes "distinct (jobTitles st)"
  shows "case saved (generateWeeklyAssignments rnd now st) of
           None \<Rightarrow> students st = [] \<or> jobTitles st = []
         | Some st' \<Rightarrow>
             oneStudentPerJob (currentAssignments st')
             \<and> (\<forall>s. length (historyOf (studentJobHistory st') s)
                       \<le> length (historyOf (studentJobHistory st) s) + 1)"
proof (cases "students st = [] \<or> jobTitles st = []")
  case True
  then show ?thesis by (auto simp: generateWeeklyAssignments_def)
next
  case False
  then have ne: "students st \<noteq> []" "jobTitles st \<noteq> []" by auto
  from ne obtain pool jobs m w where
    jobs: "mset jobs = mset (jobTitles st)"
    and w: "w = foldl (assignJob pool)
           \<lparr>newCurrentAssignments = Map.empty,
            newStudentJobHistory = studentJobHistory st,
            newRemainingStudentsInCycle = fst (startCycle rnd st []),
            studentsAssignedThisWeek = {},
            message = m\<rparr> jobs"
    and gen: "generateWeeklyAssignments rnd now st =
       \<lparr>shown = (if newRemainingStudentsInCycle w = [] then message w @ [CycleComplete]
                 else message w),
        saved = Some (st\<lparr>currentAssignments := newCurrentAssignments w,
                          remainingStudentsInCycle := newRemainingStudentsInCycle w,
                          studentJobHistory := newStudentJobHistory w,
                          lastAssignmentDate := Some now\<rparr>)\<rparr>"
    by (rule generate_run [of st rnd now]) blast
  have "distinct jobs" using assms jobs by (metis mset_eq_imp_distinct_iff)
  then have one: "oneStudentPerJob (newCurrentAssignments w)"
    unfolding w by (rule run_oneStudentPerJob) (simp_all add: oneStudentPerJob_def)
  have "historyGrowth (studentJobHistory st) (newCurrentAssignments w) (newStudentJobHistory w)"
    unfolding w by (rule run_history) (simp_all add: historyGrowth_def)
  then have "length (historyOf (newStudentJobHistory w) s)
      \<le> length (historyOf (studentJobHistory st) s) + 1" for s
    by (cases "newCurrentAssignments w s") (auto simp: historyGrowth_def historyOf_def)
  with one show ?thesis by (simp add: gen)
qed

theorem no_double_assignment_witness:
  "distinct (jobTitles exampleState)
   \<and> saved (generateWeeklyAssignments zeroDraws ''2026-01-05'' exampleState)
       = Some (exampleState\<lparr>currentAssignments := [2 \<mapsto> ''B'', 3 \<mapsto> ''A''],
           remainingStudentsInCycle := [1],
           studentJobHistory := [2 \<mapsto> [''B''], 3 \<mapsto> [''A'']],
           lastAssignmentDate := Some ''2026-01-05''\<rparr>)
   \<and> oneStudentPerJob [2 \<mapsto> ''B'', 3 \<mapsto> ''A'']
   \<and> (\<forall>s. length (historyOf [2 \<mapsto> [''B''], 3 \<mapsto> [''A'']] s)
             \<le> length (historyOf (studentJobHistory exampleState) s) + 1)"
proof -
  have d: "distinct (jobTitles exampleState)" by (simp add: exampleState_def)
  from no_double_assignment [OF d, of zeroDraws "''2026-01-05''"] d show ?thesis
    by (simp add: run_exampleState)
qed

text \<open>
  C2. When neither the students nor the job titles repeat and the students are at least as
  many as the job titles, one call of \<open>generateWeeklyAssignments\<close> saves assignments in which
  every job title is the job of exactly one student; every assignment is of a job title of the
  roster to a student of the roster.
\<close>

theorem every_job_assigned:
  assumes "distinct (students st)" "distinct (jobTitles st)"
    and "length (jobTitles st) \<le> length (students st)"
  shows "jobTitles st = []
    \<or> (\<exists>st'. saved (generateWeeklyAssignments rnd now st) = Some st'
          \<and> (\<forall>j\<in>set (jobTitles st). \<exists>!s. currentAssignments st' s = Some j)
          \<and> (\<forall>s j. currentAssignments st' s = Some j \<longrightarrow>
                 s \<in> set (students st) \<and> j \<in> set (jobTitles st)))"
proof (cases "jobTitles st = []")
  case True
  then show ?thesis by simp
next
  case False
  with assms(3) have ne: "students st \<noteq> []" "jobTitles st \<noteq> []" by auto
  from ne obtain pool jobs m w where
    pool: "mset pool = mset (students st)"
    and jobs: "mset jobs = mset (jobTitles st)"
    and w: "w = foldl (assignJob pool)
           \<lparr>newCurrentAssignments = Map.empty,
            newStudentJobHistory = studentJobHistory st,
            newRemainingStudentsInCycle = fst (startCycle rnd st []),
            studentsAssignedThisWeek = {},
            message = m\<rparr> jobs"
    and gen: "generateWeeklyAssignments rnd now st =
       \<lparr>shown = (if newRemainingStudentsInCycle w = [] then message w @ [CycleComplete]
                 else message w),
        saved = Some (st\<lparr>currentAssignments := newCurrentAssignments w,
                          remainingStudentsInCycle := newRemainingStudentsInCycle w,
                          studentJobHistory := newStudentJobHistory w,
                          lastAssignmentDate := Some now\<rparr>)\<rparr>"
    by (rule generate_run [of st rnd now]) blast
  let ?w0 = "\<lparr>newCurrentAssignments = Map.empty,
            newStudentJobHistory = studentJobHistory st,
            newRemainingStudentsInCycle = fst (startCycle rnd st []),
            studentsAssignedThisWeek = {},
            message = m\<rparr>"
  have dp: "distinct pool" using assms(1) pool by (metis mset_eq_imp_distinct_iff)
  have dj: "distinct jobs" using assms(2) jobs by (metis mset_eq_imp_distinct_iff)
  have sets: "set pool = set (students st)" "set jobs = set (jobTitles st)"
    using pool jobs by (auto dest: mset_eq_setD)
  have lens: "length pool = length (students st)" "length jobs = length (jobTitles st)"
    using pool jobs by (auto dest: mset_eq_length)
  have el: "eligibleStudents pool ?w0 = pool" by (simp add: eligibleStudents_def)
  have cover: "\<forall>j\<in>set jobs. \<exists>s\<in>set pool. newCurrentAssignments w s = Some j"
    unfolding w by (rule run_covers [OF dp]) (use el lens assms(3) in simp_all)
  have one: "oneStudentPerJob (newCurrentAssignments w)"
    unfolding w using dj by (rule run_oneStudentPerJob) (simp_all add: oneStudentPerJob_def)
  have range: "s \<in> set pool \<and> j \<in> set jobs" if "newCurrentAssignments w s = Some j" for s j
    using run_range [of ?w0 pool jobs s j] that unfolding w by simp
  have uniq: "\<forall>j\<in>set (jobTitles st). \<exists>!s. newCurrentAssignments w s = Some j"
  proof
    fix j assume "j \<in> set (jobTitles st)"
    with cover sets obtain s where "newCurrentAssignments w s = Some j" by blast
    with one show "\<exists>!s. newCurrentAssignments w s = Some j"
      unfolding oneStudentPerJob_def by blast
  qed
  show ?thesis using uniq range sets by (simp add: gen)
qed

theorem every_job_assigned_witness:
  "distinct (students exampleState) \<and> distinct (jobTitles exampleState)
   \<and> length (jobTitles exampleState) \<le> length (students exampleState)
   \<and> jobTitles exampleState \<noteq> []
   \<and> (\<exists>st'. saved (generateWeeklyAssignments zeroDraws ''2026-01-05'' exampleState) = Some st'
          \<and> currentAssignments st' = [2 \<mapsto> ''B'', 3 \<mapsto> ''A'']
          \<and> (\<forall>j\<in>set (jobTitles exampleState). \<exists>!s. currentAssignments st' s = Some j))"
proof -
  have h: "distinct (students exampleState)" "distinct (jobTitles exampleState)"
    "length (jobTitles exampleState) \<le> length (students exampleState)"
    "jobTitles exampleState \<noteq> []"
    by (simp_all add: exampleState_def)
  from every_job_assigned [OF h(1-3), of zeroDraws "''2026-01-05''"] h show ?thesis
    by (simp add: run_exampleState)
qed

text \<open>
  C4. When the cycle queue is empty and both rosters are non-empty, the run starts from a
  refilled queue, a permutation of the student roster, and the assignments are made on it:
  the queue saved is the refilled one, in order, less one entry for every student who got a
  job. When the cycle queue is not empty at the start, the run adds no student to it: the
  queue afterwards is the old one with entries removed.
\<close>

theorem cycle_refill_then_shrink:
  "(remainingStudentsInCycle st = [] \<and> students st \<noteq> [] \<and> jobTitles st \<noteq> [] \<longrightarrow>
      mset (fst (startCycle rnd st msg)) = mset (students st)
      \<and> (\<exists>st'. saved (generateWeeklyAssignments rnd now st) = Some st'
            \<and> subseq (remainingStudentsInCycle st') (fst (startCycle rnd st msg))
            \<and> (\<forall>s. count_list (remainingStudentsInCycle st') s
                      = count_list (fst (startCycle rnd st msg)) s
                        - (if currentAssignments st' s = None then 0 else 1))))
   \<and> (remainingStudentsInCycle st \<noteq> [] \<longrightarrow>
        subseq (remainingStudentsInCycle (stateAfter st (generateWeeklyAssignments rnd now st)))
          (remainingStudentsInCycle st))"
proof (cases "students st = [] \<or> jobTitles st = []")
  case True
  then have "stateAfter st (generateWeeklyAssignments rnd now st) = st"
    by (auto simp: generateWeeklyAssignments_def stateAfter_def)
  with True show ?thesis by auto
next
  case False
  then have ne: "students st \<noteq> []" "jobTitles st \<noteq> []" by auto
  from ne obtain pool jobs m w where
    w: "w = foldl (assignJob pool)
           \<lparr>newCurrentAssignments = Map.empty,
            newStudentJobHistory = studentJobHistory st,
            newRemainingStudentsInCycle = fst (startCycle rnd st []),
            studentsAssignedThisWeek = {},
            message = m\<rparr> jobs"
    and gen: "generateWeeklyAssignments rnd now st =
       \<lparr>shown = (if newRemainingStudentsInCycle w = [] then message w @ [CycleComplete]
                 else message w),
        saved = Some (st\<lparr>currentAssignments := newCurrentAssignments w,
                          remainingStudentsInCycle := newRemainingStudentsInCycle w,
                          studentJobHistory := newStudentJobHistory w,
                          lastAssignmentDate := Some now\<rparr>)\<rparr>"
    by (rule generate_run [of st rnd now]) blast
  let ?q0 = "fst (startCycle rnd st msg)"
  have q0: "fst (startCycle rnd st []) = ?q0" by (simp add: fst_startCycle)
  have sub: "subseq (newRemainingStudentsInCycle w) ?q0"
    unfolding w
    using run_queue_subseq [of pool "\<lparr>newCurrentAssignments = Map.empty,
            newStudentJobHistory = studentJobHistory st,
            newRemainingStudentsInCycle = fst (startCycle rnd st []),
            studentsAssignedThisWeek = {},
            message = m\<rparr>" jobs]
    by (simp add: q0)
  have cnt: "\<forall>s. count_list (newRemainingStudentsInCycle w) s
      = count_list ?q0 s - (if newCurrentAssignments w s = None then 0 else 1)"
    unfolding w by (rule run_queue_count) (simp_all add: q0)
  have perm: "mset ?q0 = mset (students st)" if "remainingStudentsInCycle st = []"
    using that by (simp add: fst_startCycle mset_shuffleArray)
  have old: "?q0 = remainingStudentsInCycle st" if "remainingStudentsInCycle st \<noteq> []"
    using that by (simp add: fst_startCycle)
  show ?thesis using sub cnt perm old by (auto simp: gen stateAfter_def)
qed

theorem cycle_refill_then_shrink_witness:
  "(remainingStudentsInCycle cycleOverState = [] \<and> students cycleOverState \<noteq> []
      \<and> jobTitles cycleOverState \<noteq> []
      \<and> fst (startCycle zeroDraws cycleOverState []) = [2, 1]
      \<and> mset [2, 1] = mset (students cycleOverState)
      \<and> (\<exists>st'. saved (generateWeeklyAssignments zeroDraws ''2026-01-05'' cycleOverState) = Some st'
            \<and> remainingStudentsInCycle st' = [1]
            \<and> subseq (remainingStudentsInCycle st') [2, 1]))
   \<and> (remainingStudentsInCycle exampleState \<noteq> []
      \<and> subseq (remainingStudentsInCycle
            (stateAfter exampleState (generateWeeklyAssignments zeroDraws ''2026-01-05'' exampleState)))
          (remainingStudentsInCycle exampleState))"
proof -
  have h: "remainingStudentsInCycle cycleOverState = []" "students cycleOverState \<noteq> []"
    "jobTitles cycleOverState \<noteq> []" "remainingStudentsInCycle exampleState \<noteq> []"
    by (simp_all add: cycleOverState_def exampleState_def)
  from cycle_refill_then_shrink [of cycleOverState zeroDraws "[]" "''2026-01-05''"] h(1-3)
  have a: "mset (fst (startCycle zeroDraws cycleOverState [])) = mset (students cycleOverState)
    \<and> (\<exists>st'. saved (generateWeeklyAssignments zeroDraws ''2026-01-05'' cycleOverState) = Some st'
          \<and> subseq (remainingStudentsInCycle st') (fst (startCycle zeroDraws cycleOverState [])))"
    by blast
  from cycle_refill_then_shrink [of exampleState zeroDraws "[]" "''2026-01-05''"] h(4)
  have b: "subseq (remainingStudentsInCycle
            (stateAfter exampleState (generateWeeklyAssignments zeroDraws ''2026-01-05'' exampleState)))
          (remainingStudentsInCycle exampleState)"
    by blast
  from a b h show ?thesis
    by (simp add: startCycle_cycleOverState run_cycleOverState)
qed

text \<open>
  C5, as the code has it. Take the cycle queue the run starts from: the queue of the state
  when it is not empty, the freshly shuffled roster otherwise. In a run that saves a state,
  a student who is assigned a job has it appended to the history they had, and loses one
  entry of that queue if they have one; a student who is not assigned keeps their history
  and all their entries. The entries left keep their order, and when the starting queue has no duplicates
  the queue saved is exactly its unassigned students.
\<close>

theorem assignment_bookkeeping:
  assumes "saved (generateWeeklyAssignments rnd now st) = Some st'"
  shows "(\<forall>s j. currentAssignments st' s = Some j \<longrightarrow>
            studentJobHistory st' s = Some (historyOf (studentJobHistory st) s @ [j]))
     \<and> (\<forall>s. currentAssignments st' s = None \<longrightarrow> studentJobHistory st' s = studentJobHistory st s)
     \<and> subseq (remainingStudentsInCycle st') (fst (startCycle rnd st msg))
     \<and> (\<forall>s. count_list (remainingStudentsInCycle st') s
               = count_list (fst (startCycle rnd st msg)) s
                 - (if currentAssignments st' s = None then 0 else 1))
     \<and> (distinct (fst (startCycle rnd st msg)) \<longrightarrow>
          remainingStudentsInCycle st'
            = filter (\<lambda>s. currentAssignments st' s = None) (fst (startCycle rnd st msg)))"
proof -
  from assms have ne: "students st \<noteq> []" "jobTitles st \<noteq> []"
    by (auto simp: generateWeeklyAssignments_def split: if_splits)
  from ne obtain pool jobs m w where
    w: "w = foldl (assignJob pool)
           \<lparr>newCurrentAssignments = Map.empty,
            newStudentJobHistory = studentJobHistory st,
            newRemainingStudentsInCycle = fst (startCycle rnd st []),
            studentsAssignedThisWeek = {},
            message = m\<rparr> jobs"
    and gen: "generateWeeklyAssignments rnd now st =
       \<lparr>shown = (if newRemainingStudentsInCycle w = [] then message w @ [CycleComplete]
                 else message w),
        saved = Some (st\<lparr>currentAssignments := newCurrentAssignments w,
                          remainingStudentsInCycle := newRemainingStudentsInCycle w,
                          studentJobHistory := newStudentJobHistory w,
                          lastAssignmentDate := Some now\<rparr>)\<rparr>"
    by (rule generate_run [of st rnd now]) blast
  from assms gen have st': "st' = st\<lparr>currentAssignments := newCurrentAssignments w,
                          remainingStudentsInCycle := newRemainingStudentsInCycle w,
                          studentJobHistory := newStudentJobHistory w,
                          lastAssignmentDate := Some now\<rparr>"
    by simp
  let ?q0 = "fst (startCycle rnd st msg)"
  have q0: "fst (startCycle rnd st []) = ?q0" by (simp add: fst_startCycle)
  have hist: "historyGrowth (studentJobHistory st) (newCurrentAssignments w) (newStudentJobHistory w)"
    unfolding w by (rule run_history) (simp_all add: historyGrowth_def)
  have sub: "subseq (newRemainingStudentsInCycle w) ?q0"
    unfolding w
    using run_queue_subseq [of pool "\<lparr>newCurrentAssignments = Map.empty,
            newStudentJobHistory = studentJobHistory st,
            newRemainingStudentsInCycle = fst (startCycle rnd st []),
            studentsAssignedThisWeek = {},
            message = m\<rparr>" jobs]
    by (simp add: q0)
  have cnt: "\<forall>s. count_list (newRemainingStudentsInCycle w) s
      = count_list ?q0 s - (if newCurrentAssignments w s = None then 0 else 1)"
    unfolding w by (rule run_queue_count) (simp_all add: q0)
  have flt: "newRemainingStudentsInCycle w
      = filter (\<lambda>s. newCurrentAssignments w s = None) ?q0" if "distinct ?q0"
    unfolding w using that by (rule run_queue_filter) (simp add: q0)
  from hist sub cnt flt show ?thesis
    unfolding st' historyGrowth_def by simp
qed

theorem assignment_bookkeeping_witness:
  "saved (generateWeeklyAssignments zeroDraws ''2026-01-05'' exampleState)
     = Some (exampleState\<lparr>currentAssignments := [2 \<mapsto> ''B'', 3 \<mapsto> ''A''],
        remainingStudentsInCycle := [1],
        studentJobHistory := [2 \<mapsto> [''B''], 3 \<mapsto> [''A'']],
        lastAssignmentDate := Some ''2026-01-05''\<rparr>)
   \<and> distinct (fst (startCycle zeroDraws exampleState []))
   \<and> [1] = filter (\<lambda>s. [2 \<mapsto> ''B'', 3 \<mapsto> ''A''] s = None) (fst (startCycle zeroDraws exampleState []))
   \<and> [2 \<mapsto> [''B''], 3 \<mapsto> [''A'']] (2 :: int)
       = Some (historyOf (studentJobHistory exampleState) 2 @ [''B''])
   \<and> [2 \<mapsto> [''B''], 3 \<mapsto> [''A'']] (1 :: int) = studentJobHistory exampleState 1"
proof -
  have s: "saved (generateWeeklyAssignments zeroDraws ''2026-01-05'' exampleState)
     = Some (exampleState\<lparr>currentAssignments := [2 \<mapsto> ''B'', 3 \<mapsto> ''A''],
        remainingStudentsInCycle := [1],
        studentJobHistory := [2 \<mapsto> [''B''], 3 \<mapsto> [''A'']],
        lastAssignmentDate := Some ''2026-01-05''\<rparr>)"
    by (simp add: run_exampleState)
  have d: "distinct (fst (startCycle zeroDraws exampleState []))"
    by (simp add: startCycle_def exampleState_def)
  have a: "[2 \<mapsto> ''B'', 3 \<mapsto> ''A''] (2 :: int) = Some ''B''"
    "[2 \<mapsto> ''B'', 3 \<mapsto> ''A''] (1 :: int) = None"
    by simp_all
  from assignment_bookkeeping [OF s, of "[]"]
  have "(\<forall>s j. [2 \<mapsto> ''B'', 3 \<mapsto> ''A''] s = Some j \<longrightarrow>
            [2 \<mapsto> [''B''], 3 \<mapsto> [''A'']] s
              = Some (historyOf (studentJobHistory exampleState) s @ [j]))
     \<and> (\<forall>s. [2 \<mapsto> ''B'', 3 \<mapsto> ''A''] s = None \<longrightarrow>
            [2 \<mapsto> [''B''], 3 \<mapsto> [''A'']] s = studentJobHistory exampleState s)
     \<and> (distinct (fst (startCycle zeroDraws exampleState [])) \<longrightarrow>
          [1] = filter (\<lambda>s. [2 \<mapsto> ''B'', 3 \<mapsto> ''A''] s = None)
                  (fst (startCycle zeroDraws exampleState [])))"
    by simp
  then have h1: "\<forall>s j. [2 \<mapsto> ''B'', 3 \<mapsto> ''A''] s = Some j \<longrightarrow>
            [2 \<mapsto> [''B''], 3 \<mapsto> [''A'']] s
              = Some (historyOf (studentJobHistory exampleState) s @ [j])"
    and h2: "\<forall>s. [2 \<mapsto> ''B'', 3 \<mapsto> ''A''] s = None \<longrightarrow>
            [2 \<mapsto> [''B''], 3 \<mapsto> [''A'']] s = studentJobHistory exampleState s"
    and h3: "distinct (fst (startCycle zeroDraws exampleState [])) \<longrightarrow>
          [1] = filter (\<lambda>s. [2 \<mapsto> ''B'', 3 \<mapsto> ''A''] s = None)
                  (fst (startCycle zeroDraws exampleState []))"
    by blast+
  from s d h3 [rule_format, OF d] h1 [rule_format, OF a(1)] h2 [rule_format, OF a(2)]
  show ?thesis by (intro conjI)
qed

text \<open>
  C5 as stated fails. In \<open>cycleOverState\<close> the queue is empty, so student 1 has no place in
  it. The run refills the queue and gives the one job to student 2: student 1 is not
  assigned, and is in the queue afterwards.
\<close>

theorem unassigned_student_enters_queue:
  "currentAssignments (stateAfter cycleOverState
       (generateWeeklyAssignments zeroDraws ''2026-01-05'' cycleOverState)) 1 = None
   \<and> 1 \<notin> set (remainingStudentsInCycle cycleOverState)
   \<and> remainingStudentsInCycle (stateAfter cycleOverState
       (generateWeeklyAssignments zeroDraws ''2026-01-05'' cycleOverState)) = [1]"
  by (simp add: run_cycleOverState stateAfter_def) (simp add: cycleOverState_def)

text \<open>
  C3. Every run of \<open>generateWeeklyAssignments\<close> with non-empty rosters saves the assignments
  that the passes of the job loop make, one pass for each job of the shuffled job titles, on
  a pool that is a permutation of the roster. At every pass the eligible students are the
  students of the roster not yet assigned this week. When there is none the pass assigns
  nothing. When there is one, the pass gives the job to one of them, who has it in the
  assignments saved, and: that student has the job among the last two entries of their
  history only if every eligible student has; when some eligible student has not, the job
  goes to the first of those in the order of the eligible list; when all have, the choice
  is the one of the second search (a student who never held the job) if it finds one, and
  the first eligible student otherwise.
\<close>

theorem tier_preference:
  assumes "students st \<noteq> []" and "jobTitles st \<noteq> []"
  shows "mset (weeklyPool rnd st) = mset (students st)
    \<and> mset (jobOrder rnd st) = mset (jobTitles st)
    \<and> saved (generateWeeklyAssignments rnd now st) = Some (st
        \<lparr>currentAssignments :=
           newCurrentAssignments (weekBefore rnd st (length (jobOrder rnd st))),
         remainingStudentsInCycle :=
           newRemainingStudentsInCycle (weekBefore rnd st (length (jobOrder rnd st))),
         studentJobHistory :=
           newStudentJobHistory (weekBefore rnd st (length (jobOrder rnd st))),
         lastAssignmentDate := Some now\<rparr>)
    \<and> (\<forall>k<length (jobOrder rnd st).
          set (eligibleBefore rnd st k)
            = set (students st) - dom (newCurrentAssignments (weekBefore rnd st k))
        \<and> (eligibleBefore rnd st k = [] \<longrightarrow>
             newCurrentAssignments (weekBefore rnd st (Suc k))
               = newCurrentAssignments (weekBefore rnd st k))
        \<and> (eligibleBefore rnd st k \<noteq> [] \<longrightarrow>
             (\<exists>s\<in>set (eligibleBefore rnd st k).
                newCurrentAssignments (weekBefore rnd st (Suc k))
                  = (newCurrentAssignments (weekBefore rnd st k))(s \<mapsto> jobOrder rnd st ! k)
              \<and> currentAssignments (stateAfter st (generateWeeklyAssignments rnd now st)) s
                  = Some (jobOrder rnd st ! k)
              \<and> (recentlyHeld (studentJobHistory st) (jobOrder rnd st ! k) s \<longrightarrow>
                   (\<forall>e\<in>set (eligibleBefore rnd st k).
                      recentlyHeld (studentJobHistory st) (jobOrder rnd st ! k) e))
              \<and> ((\<exists>e\<in>set (eligibleBefore rnd st k).
                      \<not> recentlyHeld (studentJobHistory st) (jobOrder rnd st ! k) e) \<longrightarrow>
                   s = hd (filter
                         (\<lambda>e. \<not> recentlyHeld (studentJobHistory st) (jobOrder rnd st ! k) e)
                         (eligibleBefore rnd st k)))
              \<and> ((\<forall>e\<in>set (eligibleBefore rnd st k).
                      recentlyHeld (studentJobHistory st) (jobOrder rnd st ! k) e) \<longrightarrow>
                   s = (case findNeverHad (studentJobHistory st) (jobOrder rnd st ! k)
                               (eligibleBefore rnd st k) of
                          Some t \<Rightarrow> t | None \<Rightarrow> eligibleBefore rnd st k ! 0)))))"
proof -
  let ?pool = "weeklyPool rnd st" and ?jobs = "jobOrder rnd st" and ?H = "studentJobHistory st"
  let ?end = "weekBefore rnd st (length ?jobs)"
  note gen = generate_passes [OF assms, of rnd now]
  have saved: "saved (generateWeeklyAssignments rnd now st) = Some (st
        \<lparr>currentAssignments := newCurrentAssignments ?end,
         remainingStudentsInCycle := newRemainingStudentsInCycle ?end,
         studentJobHistory := newStudentJobHistory ?end,
         lastAssignmentDate := Some now\<rparr>)"
    by (simp add: gen)
  have after: "currentAssignments (stateAfter st (generateWeeklyAssignments rnd now st))
      = newCurrentAssignments ?end"
    by (simp add: stateAfter_def saved)
  have pass: "set (eligibleBefore rnd st k)
            = set (students st) - dom (newCurrentAssignments (weekBefore rnd st k))
        \<and> (eligibleBefore rnd st k = [] \<longrightarrow>
             newCurrentAssignments (weekBefore rnd st (Suc k))
               = newCurrentAssignments (weekBefore rnd st k))
        \<and> (eligibleBefore rnd st k \<noteq> [] \<longrightarrow>
             (\<exists>s\<in>set (eligibleBefore rnd st k).
                newCurrentAssignments (weekBefore rnd st (Suc k))
                  = (newCurrentAssignments (weekBefore rnd st k))(s \<mapsto> ?jobs ! k)
              \<and> currentAssignments (stateAfter st (generateWeeklyAssignments rnd now st)) s
                  = Some (?jobs ! k)
              \<and> (recentlyHeld ?H (?jobs ! k) s \<longrightarrow>
                   (\<forall>e\<in>set (eligibleBefore rnd st k). recentlyHeld ?H (?jobs ! k) e))
              \<and> ((\<exists>e\<in>set (eligibleBefore rnd st k). \<not> recentlyHeld ?H (?jobs ! k) e) \<longrightarrow>
                   s = hd (filter (\<lambda>e. \<not> recentlyHeld ?H (?jobs ! k) e)
                         (eligibleBefore rnd st k)))
              \<and> ((\<forall>e\<in>set (eligibleBefore rnd st k). recentlyHeld ?H (?jobs ! k) e) \<longrightarrow>
                   s = (case findNeverHad ?H (?jobs ! k) (eligibleBefore rnd st k) of
                          Some t \<Rightarrow> t | None \<Rightarrow> eligibleBefore rnd st k ! 0))))"
    if k: "k < length ?jobs" for k
  proof -
    let ?w = "weekBefore rnd st k" and ?job = "?jobs ! k"
    let ?E = "eligibleBefore rnd st k" and ?h = "newStudentJobHistory (weekBefore rnd st k)"
    have E: "?E = eligibleStudents ?pool ?w" by (simp add: eligibleBefore_def)
    have next_w: "weekBefore rnd st (Suc k) = assignJob ?pool ?w ?job"
      using k by (rule weekBefore_Suc)
    have "set ?pool = set (students st)"
      using mset_weeklyPool [of rnd st] by (rule mset_eq_setD)
    then have elig: "set ?E = set (students st) - dom (newCurrentAssignments ?w)"
      using weekBefore_dom [of rnd st k] by (auto simp: E eligibleStudents_mem)
    have same: "?h e = ?H e" if "e \<in> set ?E" for e
      using that by (rule eligibleBefore_history)
    have recent: "recentlyHeld ?h ?job e = recentlyHeld ?H ?job e" if "e \<in> set ?E" for e
      using same [OF that] by (rule recentlyHeld_cong)
    have flt: "filter (\<lambda>e. \<not> recentlyHeld ?h ?job e) ?E
        = filter (\<lambda>e. \<not> recentlyHeld ?H ?job e) ?E"
      by (rule filter_cong) (simp_all add: recent)
    have never: "findNeverHad ?h ?job ?E = findNeverHad ?H ?job ?E"
      by (rule findNeverHad_cong) (simp add: same)
    note rule = pass_preference [of ?pool ?w ?job, folded E next_w]
    have skip: "newCurrentAssignments (weekBefore rnd st (Suc k)) = newCurrentAssignments ?w"
      if "?E = []"
      using rule that by blast
    have pick: "\<exists>s\<in>set ?E.
        newCurrentAssignments (weekBefore rnd st (Suc k))
          = (newCurrentAssignments ?w)(s \<mapsto> ?job)
        \<and> currentAssignments (stateAfter st (generateWeeklyAssignments rnd now st)) s = Some ?job
        \<and> (recentlyHeld ?H ?job s \<longrightarrow> (\<forall>e\<in>set ?E. recentlyHeld ?H ?job e))
        \<and> ((\<exists>e\<in>set ?E. \<not> recentlyHeld ?H ?job e) \<longrightarrow>
             s = hd (filter (\<lambda>e. \<not> recentlyHeld ?H ?job e) ?E))
        \<and> ((\<forall>e\<in>set ?E. recentlyHeld ?H ?job e) \<longrightarrow>
             s = (case findNeverHad ?H ?job ?E of Some t \<Rightarrow> t | None \<Rightarrow> ?E ! 0))"
      if ne: "?E \<noteq> []"
    proof -
      from rule ne obtain s where s: "s \<in> set ?E"
        and a: "newCurrentAssignments (weekBefore rnd st (Suc k))
          = (newCurrentAssignments ?w)(s \<mapsto> ?job)"
        and r1: "recentlyHeld ?h ?job s \<longrightarrow> (\<forall>e\<in>set ?E. recentlyHeld ?h ?job e)"
        and r2: "(\<exists>e\<in>set ?E. \<not> recentlyHeld ?h ?job e) \<longrightarrow>
             s = hd (filter (\<lambda>e. \<not> recentlyHeld ?h ?job e) ?E)"
        and r3: "(\<forall>e\<in>set ?E. recentlyHeld ?h ?job e) \<longrightarrow>
             s = (case findNeverHad ?h ?job ?E of Some t \<Rightarrow> t | None \<Rightarrow> ?E ! 0)"
        by blast
      have now_s: "newCurrentAssignments (weekBefore rnd st (Suc k)) s = Some ?job"
        by (simp add: a)
      have "Suc k \<le> length ?jobs" using k by simp
      then have "?end = foldl (assignJob ?pool) (weekBefore rnd st (Suc k)) (drop (Suc k) ?jobs)"
        by (rule weekBefore_end)
      with run_mono [OF weekBefore_dom now_s, of ?pool "drop (Suc k) ?jobs"]
      have "newCurrentAssignments ?end s = Some ?job" by simp
      then have fin: "currentAssignments (stateAfter st (generateWeeklyAssignments rnd now st)) s
          = Some ?job"
        by (simp add: after)
      have r1': "recentlyHeld ?H ?job s \<longrightarrow> (\<forall>e\<in>set ?E. recentlyHeld ?H ?job e)"
        using r1 s by (simp add: recent)
      have r2': "(\<exists>e\<in>set ?E. \<not> recentlyHeld ?H ?job e) \<longrightarrow>
             s = hd (filter (\<lambda>e. \<not> recentlyHeld ?H ?job e) ?E)"
        using r2 by (simp add: recent flt [symmetric])
      have r3': "(\<forall>e\<in>set ?E. recentlyHeld ?H ?job e) \<longrightarrow>
             s = (case findNeverHad ?H ?job ?E of Some t \<Rightarrow> t | None \<Rightarrow> ?E ! 0)"
        using r3 by (simp add: recent never [symmetric])
      from s a fin r1' r2' r3' show ?thesis by blast
    qed
    from elig skip pick show ?thesis by blast
  qed
  from mset_weeklyPool [of rnd st] mset_jobOrder [of rnd st] saved pass
  show ?thesis by blast
qed

theorem tier_preference_witness:
  "students windowState \<noteq> [] \<and> jobTitles windowState \<noteq> []
   \<and> jobOrder zeroDraws windowState = [''B'']
   \<and> eligibleBefore zeroDraws windowState 0 = [2, 3, 1]
   \<and> recentlyHeld (studentJobHistory windowState) ''B'' 2
   \<and> \<not> recentlyHeld (studentJobHistory windowState) ''B'' 3
   \<and> currentAssignments (stateAfter windowState
         (generateWeeklyAssignments zeroDraws ''2026-01-05'' windowState)) 3 = Some ''B''
   \<and> students repeatState \<noteq> [] \<and> jobTitles repeatState \<noteq> []
   \<and> eligibleBefore zeroDraws repeatState 0 = [1]
   \<and> recentlyHeld (studentJobHistory repeatState) ''A'' 1
   \<and> currentAssignments (stateAfter repeatState
         (generateWeeklyAssignments zeroDraws ''2026-01-05'' repeatState)) 1 = Some ''A''
   \<and> students shortState \<noteq> [] \<and> jobTitles shortState \<noteq> []
   \<and> jobOrder zeroDraws shortState = [''B'', ''A'']
   \<and> eligibleBefore zeroDraws shortState (Suc 0) = []
   \<and> newCurrentAssignments (weekBefore zeroDraws shortState (Suc (Suc 0)))
       = newCurrentAssignments (weekBefore zeroDraws shortState (Suc 0))"
proof -
  have ne: "students windowState \<noteq> []" "jobTitles windowState \<noteq> []"
    "students repeatState \<noteq> []" "jobTitles repeatState \<noteq> []"
    "students shortState \<noteq> []" "jobTitles shortState \<noteq> []"
    by (simp_all add: windowState_def repeatState_def shortState_def exampleState_def)
  note w = tier_preference [OF ne(1,2), of zeroDraws "''2026-01-05''",
      THEN conjunct2, THEN conjunct2, THEN conjunct2, rule_format, of 0]
  note r = tier_preference [OF ne(3,4), of zeroDraws "''2026-01-05''",
      THEN conjunct2, THEN conjunct2, THEN conjunct2, rule_format, of 0]
  note s = tier_preference [OF ne(5,6), of zeroDraws "''2026-01-05''",
      THEN conjunct2, THEN conjunct2, THEN conjunct2, rule_format, of "Suc 0"]
  have a: "currentAssignments (stateAfter windowState
         (generateWeeklyAssignments zeroDraws ''2026-01-05'' windowState)) 3 = Some ''B''"
    using w recent_windowState by (auto simp: passes_windowState)
  have b: "currentAssignments (stateAfter repeatState
         (generateWeeklyAssignments zeroDraws ''2026-01-05'' repeatState)) 1 = Some ''A''"
    using r by (auto simp: passes_repeatState)
  have c: "newCurrentAssignments (weekBefore zeroDraws shortState (Suc (Suc 0)))
       = newCurrentAssignments (weekBefore zeroDraws shortState (Suc 0))"
    using s by (simp add: passes_shortState)
  from ne passes_windowState recent_windowState(1,2) a passes_repeatState(2,3) b
    passes_shortState c
  show ?thesis by (intro conjI)
qed

text \<open>
  C9. The second search of \<open>generateWeeklyAssignments\<close> never succeeds where it is tried. A
  job among the last two entries of a history is in the history, so when the first search
  finds no student, neither does the second. Hence no run shows the warning of the second
  search, and a pick that the first search did not make is the first eligible student, with
  the warning of the last resort.
\<close>

theorem tier2_never_fires:
  "(job \<in> set (recentHistoryJobs history) \<longrightarrow> job \<in> set history)
   \<and> (findNotRecent h job eligible = None \<longrightarrow> findNeverHad h job eligible = None)
   \<and> (\<forall>s j. RecentHistoryWarning s j \<notin> set (shown (generateWeeklyAssignments rnd now st)))
   \<and> (eligible \<noteq> [] \<and> findNotRecent h job eligible = None \<longrightarrow>
        pickStudent h job eligible
          = (Some (eligible ! 0), [HadBeforeWarning (eligible ! 0) job]))"
proof -
  have a: "job \<in> set (recentHistoryJobs history) \<longrightarrow> job \<in> set history"
    using recent_subset [of history] by auto
  have b: "findNotRecent h job eligible = None \<longrightarrow> findNeverHad h job eligible = None"
    by (simp add: tier2_unreachable)
  have c: "\<forall>s j. RecentHistoryWarning s j \<notin> set (shown (generateWeeklyAssignments rnd now st))"
  proof (cases "students st = [] \<or> jobTitles st = []")
    case True
    then show ?thesis by (auto simp: generateWeeklyAssignments_def)
  next
    case False
    then have ne: "students st \<noteq> []" "jobTitles st \<noteq> []" by auto
    from ne obtain pool jobs m w where
      m: "\<forall>s j. RecentHistoryWarning s j \<notin> set m"
      and w: "w = foldl (assignJob pool)
           \<lparr>newCurrentAssignments = Map.empty,
            newStudentJobHistory = studentJobHistory st,
            newRemainingStudentsInCycle = fst (startCycle rnd st []),
            studentsAssignedThisWeek = {},
            message = m\<rparr> jobs"
      and gen: "generateWeeklyAssignments rnd now st =
       \<lparr>shown = (if newRemainingStudentsInCycle w = [] then message w @ [CycleComplete]
                 else message w),
        saved = Some (st\<lparr>currentAssignments := newCurrentAssignments w,
                          remainingStudentsInCycle := newRemainingStudentsInCycle w,
                          studentJobHistory := newStudentJobHistory w,
                          lastAssignmentDate := Some now\<rparr>)\<rparr>"
      by (rule generate_run [of st rnd now]) blast
    have "\<forall>s j. RecentHistoryWarning s j \<notin> set (message w)"
      unfolding w by (rule run_no_recent_warning) (simp add: m)
    then show ?thesis by (simp add: gen)
  qed
  have d: "eligible \<noteq> [] \<and> findNotRecent h job eligible = None \<longrightarrow>
        pickStudent h job eligible
          = (Some (eligible ! 0), [HadBeforeWarning (eligible ! 0) job])"
    by (auto simp: pickStudent_def tier2_unreachable)
  from a b c d show ?thesis by blast
qed

theorem tier2_never_fires_witness:
  "''B'' \<in> set (recentHistoryJobs [''B'', ''A'', ''B'']) \<and> ''B'' \<in> set [''B'', ''A'', ''B'']
   \<and> [2, 3] \<noteq> ([] :: int list)
   \<and> findNotRecent [2 \<mapsto> [''B''], 3 \<mapsto> [''A'', ''B'']] ''B'' [2, 3] = None
   \<and> findNeverHad [2 \<mapsto> [''B''], 3 \<mapsto> [''A'', ''B'']] ''B'' [2, 3] = None
   \<and> pickStudent [2 \<mapsto> [''B''], 3 \<mapsto> [''A'', ''B'']] ''B'' [2, 3]
       = (Some 2, [HadBeforeWarning 2 ''B''])
   \<and> RecentHistoryWarning 2 ''B''
       \<notin> set (shown (generateWeeklyAssignments zeroDraws ''2026-01-05'' exampleState))"
proof -
  let ?h = "[2 \<mapsto> [''B''], 3 \<mapsto> [''A'', ''B'']] :: int \<rightharpoonup> string list"
  have r: "''B'' \<in> set (recentHistoryJobs [''B'', ''A'', ''B''])"
    by (simp add: recentHistoryJobs_def)
  have n: "findNotRecent ?h ''B'' [2, 3] = None"
    by (simp add: recentHistoryJobs_def historyOf_def)
  from tier2_never_fires [of "''B''" "[''B'', ''A'', ''B'']" ?h "[2, 3]" zeroDraws
      "''2026-01-05''" exampleState] r n
  show ?thesis by simp
qed

text \<open>
  C7. \<open>resetAssignmentHistory\<close> saves a state with no current assignments, no history and
  no date, whose cycle queue is a permutation of the student roster; the students, the job
  titles and the user's defaults are those of the state it was called on.
\<close>

theorem reset_clears_history_keeps_rosters:
  "\<exists>st'. saved (resetAssignmentHistory rnd st) = Some st'
     \<and> currentAssignments st' = Map.empty
     \<and> studentJobHistory st' = Map.empty
     \<and> lastAssignmentDate st' = None
     \<and> mset (remainingStudentsInCycle st') = mset (students st)
     \<and> students st' = students st
     \<and> jobTitles st' = jobTitles st
     \<and> userDefaultStudents st' = userDefaultStudents st
     \<and> userDefaultJobTitles st' = userDefaultJobTitles st"
  by (simp add: resetAssignmentHistory_def mset_shuffleArray)

text \<open>
  C8, as the code has it. The loader does not validate. For every stored document it returns
  a state, and the students, the job titles, the cycle queue and the current assignments of
  that state are the document's own whenever the document carries them; a missing queue
  becomes the empty queue and missing assignments the empty map.
\<close>

theorem loader_takes_document_as_is:
  "(doc_students d = Some ss \<longrightarrow> students (loadState prev d) = ss)
   \<and> (doc_jobTitles d = Some js \<longrightarrow> jobTitles (loadState prev d) = js)
   \<and> (doc_remainingStudentsInCycle d = Some q \<longrightarrow> remainingStudentsInCycle (loadState prev d) = q)
   \<and> (doc_currentAssignments d = Some a \<longrightarrow> currentAssignments (loadState prev d) = a)
   \<and> (doc_remainingStudentsInCycle d = None \<longrightarrow> remainingStudentsInCycle (loadState prev d) = [])
   \<and> (doc_currentAssignments d = None \<longrightarrow> currentAssignments (loadState prev d) = Map.empty)"
  by (simp add: loadState_def)

theorem loader_takes_document_as_is_witness:
  "doc_students staleDocument = Some [1, 1]
   \<and> doc_jobTitles staleDocument = Some [''A'']
   \<and> doc_remainingStudentsInCycle staleDocument = Some [99]
   \<and> doc_currentAssignments staleDocument = Some [99 \<mapsto> ''A'']
   \<and> students (loadState exampleState staleDocument) = [1, 1]
   \<and> jobTitles (loadState exampleState staleDocument) = [''A'']
   \<and> remainingStudentsInCycle (loadState exampleState staleDocument) = [99]
   \<and> currentAssignments (loadState exampleState staleDocument) = [99 \<mapsto> ''A'']
   \<and> doc_remainingStudentsInCycle blankDocument = None
   \<and> doc_currentAssignments blankDocument = None
   \<and> remainingStudentsInCycle (loadState exampleState blankDocument) = []
   \<and> currentAssignments (loadState exampleState blankDocument) = Map.empty"
proof -
  have d: "doc_students staleDocument = Some [1, 1]"
    "doc_jobTitles staleDocument = Some [''A'']"
    "doc_remainingStudentsInCycle staleDocument = Some [99]"
    "doc_currentAssignments staleDocument = Some [99 \<mapsto> ''A'']"
    by (simp_all add: staleDocument_def)
  have b: "doc_remainingStudentsInCycle blankDocument = None"
    "doc_currentAssignments blankDocument = None"
    by (simp_all add: blankDocument_def)
  from loader_takes_document_as_is [of staleDocument "[1, 1]" exampleState "[''A'']" "[99]"
      "[99 \<mapsto> ''A'']"] d
  have s: "students (loadState exampleState staleDocument) = [1, 1]
    \<and> jobTitles (loadState exampleState staleDocument) = [''A'']
    \<and> remainingStudentsInCycle (loadState exampleState staleDocument) = [99]
    \<and> currentAssignments (loadState exampleState staleDocument) = [99 \<mapsto> ''A'']"
    by simp
  from loader_takes_document_as_is [of blankDocument _ exampleState] b
  have n: "remainingStudentsInCycle (loadState exampleState blankDocument) = []
    \<and> currentAssignments (loadState exampleState blankDocument) = Map.empty"
    by simp
  from d b s n show ?thesis by simp
qed

text \<open>
  C8 as stated fails: the state loaded from \<open>staleDocument\<close> lists student 1 twice, and
  its cycle queue and its current assignments name student 99, who is not on the roster.
\<close>

theorem loader_keeps_duplicates_and_strangers:
  "students (loadState exampleState staleDocument) = [1, 1]
   \<and> \<not> distinct (students (loadState exampleState staleDocument))
   \<and> remainingStudentsInCycle (loadState exampleState staleDocument) = [99]
   \<and> currentAssignments (loadState exampleState staleDocument) 99 = Some ''A''
   \<and> 99 \<notin> set (students (loadState exampleState staleDocument))"
  by (simp add: loadState_def staleDocument_def)

end
